theory Spec2Isabelle
  imports Main "HOL-Library.AList"
begin

section \<open>Python strings and numbers\<close>

text \<open>
  Strings are byte lists; only the ASCII behaviour of the Python string methods is
  modelled (\<open>str.isdigit\<close> also accepts non-ASCII digits, which are outside this model).
\<close>

definition digit_char :: "nat \<Rightarrow> char" where
  "digit_char d = ''0123456789'' ! d"

definition digit_val :: "char \<Rightarrow> nat" where
  "digit_val c = of_char c - 48"

definition is_digit :: "char \<Rightarrow> bool" where
  "is_digit c = (c \<in> set ''0123456789'')"

text \<open>\<open>str(n)\<close> for a natural number, and \<open>str(i)\<close> for an integer.\<close>

fun str_nat :: "nat \<Rightarrow> string" where
  "str_nat n = (if n < 10 then [digit_char n] else str_nat (n div 10) @ [digit_char (n mod 10)])"

declare str_nat.simps [simp del]


text \<open>\<open>s.isdigit()\<close> and \<open>int(s)\<close> on a string of decimal digits.\<close>

definition isdigit :: "string \<Rightarrow> bool" where
  "isdigit s = (s \<noteq> [] \<and> list_all is_digit s)"

definition py_int :: "string \<Rightarrow> nat" where
  "py_int s = foldl (\<lambda>a c. 10 * a + digit_val c) 0 s"

definition zfill :: "nat \<Rightarrow> string \<Rightarrow> string" where
  "zfill w s = replicate (w - length s) CHR ''0'' @ s"

text \<open>\<open>format_number(num, digits)\<close>, i.e. \<open>f"{num:0{digits}d}"\<close>: the sign counts for the width.\<close>

definition format_number :: "int \<Rightarrow> nat \<Rightarrow> string" where
  "format_number num digits =
     (if num < 0 then CHR ''-'' # zfill (digits - 1) (str_nat (nat (- num)))
      else zfill digits (str_nat (nat num)))"

text \<open>\<open>str.strip()\<close>, \<open>str.split(sep)\<close>, \<open>str.startswith\<close>, \<open>str.endswith\<close>, \<open>"\n".join\<close>.\<close>

definition is_space :: "char \<Rightarrow> bool" where
  "is_space c = (c \<in> set [CHR '' '', CHR 0x09, CHR 0x0A, CHR 0x0B, CHR 0x0C, CHR 0x0D,
                            CHR 0x1C, CHR 0x1D, CHR 0x1E, CHR 0x1F])"

definition strip :: "string \<Rightarrow> string" where
  "strip s = rev (dropWhile is_space (rev (dropWhile is_space s)))"

text \<open>\<open>bytes.strip()\<close>: only the six ASCII whitespace bytes are removed.\<close>

definition is_space_bytes :: "char \<Rightarrow> bool" where
  "is_space_bytes c = (c \<in> set [CHR '' '', CHR 0x09, CHR 0x0A, CHR 0x0B, CHR 0x0C, CHR 0x0D])"

definition strip_bytes :: "string \<Rightarrow> string" where
  "strip_bytes s = rev (dropWhile is_space_bytes (rev (dropWhile is_space_bytes s)))"

fun split_on :: "char \<Rightarrow> string \<Rightarrow> string list" where
  "split_on c [] = [[]]"
| "split_on c (x # xs) =
     (if x = c then [] # split_on c xs
      else (case split_on c xs of [] \<Rightarrow> [[x]] | y # ys \<Rightarrow> (x # y) # ys))"

definition startswith :: "string \<Rightarrow> string \<Rightarrow> bool" where
  "startswith s p = (take (length p) s = p)"

definition endswith :: "string \<Rightarrow> string \<Rightarrow> bool" where
  "endswith s p = (length p \<le> length s \<and> drop (length s - length p) s = p)"

fun join :: "string \<Rightarrow> string list \<Rightarrow> string" where
  "join sep [] = []"
| "join sep [x] = x"
| "join sep (x # y # ys) = x @ sep @ join sep (y # ys)"

definition newline :: string where
  "newline = [CHR 0x0A]"

section \<open>Scope computation\<close>

text \<open>
  Lines 424--426 and 468 of \<open>main\<close>: the digit width comes from the two texts
  \<open>start_num_str\<close> and \<open>end_num_str\<close>, the names from the numbers.
\<close>

definition digits_of :: "string \<Rightarrow> string \<Rightarrow> nat" where
  "digits_of start_num_str end_num_str = max (length start_num_str) (length end_num_str)"

definition scope_names :: "string \<Rightarrow> nat \<Rightarrow> nat \<Rightarrow> nat \<Rightarrow> string list" where
  "scope_names prefix start_num end_num digits =
     map (\<lambda>i. prefix @ format_number (int i) digits) [start_num..<Suc end_num]"

definition names_in_scope :: "string \<Rightarrow> string \<Rightarrow> string \<Rightarrow> string set" where
  "names_in_scope prefix start_num_str end_num_str =
     set (scope_names prefix (py_int start_num_str) (py_int end_num_str)
            (digits_of start_num_str end_num_str))"

section \<open>Data model\<close>

text \<open>
  All of these are Python strings; the names say what they hold. A peer template is the dict that \<open>load_config\<close> builds for a section \<open>[peer.<name>]\<close>
  (lines 345--353); a peer is the dict the creation loop builds from it (lines 522--531).
\<close>

type_synonym url = string
type_synonym secret = string
type_synonym ifname = string
type_synonym wgkey = string
type_synonym cidrs = string

record peer_template =
  t_name :: string
  t_public_key :: string
  t_allowed_ips :: string
  t_endpoint :: string
  t_keepalive :: string

record peer =
  name :: string
  public_key :: string
  private_key :: string
  allowed_ips :: string
  endpoint :: string
  keepalive :: string

text \<open>The namespace that \<open>parse_args\<close> returns.\<close>

record args =
  prefix :: "string option"
  start :: "int option"
  end_arg :: "int option"
  api_key :: "string option"
  target_dir :: string
  address :: string
  listen_port :: string
  peer_allowed_ips :: string
  peer_name :: string
  server_endpoint :: string
  delete_existing :: bool
  dry_run :: bool
  dashboard_url :: string
  dashboard_db :: string
  dashboard_service :: string
  peer_dns :: string
  peer_mtu :: int
  peer_keepalive :: int
  endpoint_allowed_ips :: string
  delete_only :: bool

text \<open>The JSON values that \<open>json.loads\<close> returns; an object is a dict with unique keys.\<close>

datatype json = JNull | JBool bool | JNum int | JStr string | JArr "json list"
  | JObj "(string \<times> json) list"

record payload =
  p_id :: string
  p_name :: string
  p_private_key :: string
  p_DNS :: string
  p_allowed_ip :: string
  p_endpoint_allowed_ip :: string
  p_preshared_key :: string
  p_mtu :: int
  p_keepalive :: int
  p_remote_endpoint :: string

text \<open>
  A request is the handshake \<open>GET {url}/api/handshake\<close> or the update
  \<open>POST {url}/api/updatePeerSettings/{config_name}\<close>, both with the API key header.
  \<open>urlopen\<close> raises \<open>URLError\<close> (or its subclass \<open>HTTPError\<close>), or raises another
  exception (\<open>RemoteDisconnected\<close> or \<open>TimeoutError\<close> while it waits for the answer), or
  gives a response with a status and a body. \<open>resp.read().decode()\<close> gives the text of the
  body, or raises (\<open>UnicodeDecodeError\<close> for bytes that are not UTF-8, \<open>IncompleteRead\<close>).
\<close>

datatype request = Handshake string string | UpdatePeerSettings string string string payload

datatype body = Text string | NoText string

datatype http_result = URLError | Raised string | Response nat body

text \<open>
  Every operation the program issues to its surroundings, in order: a subprocess with its
  argv, an HTTP request, a lookup on \<open>PATH\<close>, and the operations on the target directory and
  on the SQLite store.
\<close>

datatype effect =
    Which string
  | Run "string list"
  | Http request
  | Mkdir string
  | WriteText string string
  | Chmod string nat
  | Unlink string
  | DeleteFrom string

text \<open>
  What ends a run early: \<open>sys.exit(code)\<close>, or an exception that no handler of the
  program catches.
\<close>

datatype exit = SysExit nat | Uncaught string

text \<open>
  The printed lines, by what they report (colours and layout left out). The settings
  banner at lines 428--445 and the separators are not modelled.
\<close>

datatype msg =
    MissingDeps "string list"
  | ErrNumeric
  | ErrRange
  | ErrApiKey
  | HandshakeFailed
  | HandshakeOK
  | ErrNotWritable string
  | DeletingExisting
  | SkipUnderscore string
  | Deleted string
  | DeleteError string
  | Processed nat
  | DryRunDeleteRange nat nat string
  | TablesCleared "string list"
  | WouldDelete string
  | DeleteRunDone
  | DBMissing
  | CleanupStart
  | TablesEmptied
  | NoTables
  | ServiceNotRunningAfterStart string
  | EntityHeader string
  | Exists
  | KeygenError
  | KeysShown string string
  | PeerKeygenError
  | WouldCreate string
  | ConfigCreated string
  | RestartHint
  | Restarting
  | ServiceNotRunningAfterRestart string
  | ServiceActive
  | UpdatingPeers
  | EntityLine string
  | InterfaceStartFailed
  | PeerOK string
  | PeerFAIL string
  | ApiTotals nat nat
  | Totals nat nat nat nat
  | KeyReport "(string \<times> string \<times> peer list) list"
  | DryRunDone
  | Done

text \<open>
  The surroundings, as functions the program cannot influence. The \<open>n\<close>-th call the run
  makes to a subprocess or to \<open>urlopen\<close> is answered by \<open>exec n\<close> or \<open>urlopen n\<close>, so that
  the same command can succeed once and fail later. \<open>json_loads\<close> is \<open>json.loads\<close>, with
  \<open>None\<close> for \<open>JSONDecodeError\<close>. The \<open>in_\<close> fields are what the user types at each prompt.
\<close>

record env =
  which :: "string \<Rightarrow> bool"
  exec :: "nat \<Rightarrow> string list \<Rightarrow> string \<Rightarrow> nat \<times> string"
  urlopen :: "nat \<Rightarrow> request \<Rightarrow> http_result"
  json_loads :: "string \<Rightarrow> json option"
  access_w :: bool
  unlink_fails :: "string \<Rightarrow> bool"
  in_prefix :: string
  in_start :: string
  in_end :: string
  in_api_key :: string
  in_restart :: string

text \<open>
  The state a run changes: the number of calls made so far, the files of the target
  directory (file name to text), the tables of the store (table name to rows; \<open>None\<close>
  when the store file does not exist), the operations issued and the lines printed.
\<close>

record world =
  tick :: nat
  files :: "(string \<times> string) list"
  db :: "(string \<times> string list) list option"
  trace :: "effect list"
  out :: "msg list"

definition say :: "msg \<Rightarrow> world \<Rightarrow> world" where
  "say m w = w\<lparr>out := out w @ [m]\<rparr>"

definition emit :: "effect \<Rightarrow> world \<Rightarrow> world" where
  "emit e w = w\<lparr>trace := trace w @ [e]\<rparr>"

definition path_exists :: "world \<Rightarrow> string \<Rightarrow> bool" where
  "path_exists w f = (map_of (files w) f \<noteq> None)"

section \<open>Helpers (lines 35--71)\<close>

text \<open>
  \<open>run_cmd\<close> with \<open>check=False\<close>: the return code and the captured output. A caller
  that keeps the default \<open>check=True\<close> raises \<open>CalledProcessError\<close> on a non-zero code.
\<close>

definition run_cmd :: "env \<Rightarrow> string list \<Rightarrow> string \<Rightarrow> world \<Rightarrow> (nat \<times> string) \<times> world" where
  "run_cmd E cmd input_data w =
     (exec E (tick w) cmd input_data, w\<lparr>tick := Suc (tick w), trace := trace w @ [Run cmd]\<rparr>)"



section \<open>Remote registrar (lines 74--128)\<close>


text \<open>
  \<open>json.loads(text or "{}")\<close>: an empty body is read as the empty object.
\<close>

definition loads_body :: "env \<Rightarrow> string \<Rightarrow> json option" where
  "loads_body E text = (if text = [] then Some (JObj []) else json_loads E text)"

text \<open>
  The handler catches \<open>URLError\<close>, \<open>HTTPError\<close> and \<open>JSONDecodeError\<close> only. Any other
  exception of \<open>urlopen\<close> or of reading the body leaves the function, and so does the
  \<open>AttributeError\<close> of \<open>body.get\<close> on a body that is valid JSON but not an object. A status
  other than 200 returns before the body is read.
\<close>

definition update_wgdashboard_peer ::
  "env \<Rightarrow> url \<Rightarrow> secret \<Rightarrow> ifname \<Rightarrow> wgkey \<Rightarrow> wgkey \<Rightarrow> string \<Rightarrow> string \<Rightarrow> cidrs \<Rightarrow> cidrs
     \<Rightarrow> int \<Rightarrow> int \<Rightarrow> string \<Rightarrow> world \<Rightarrow> (exit + bool) \<times> world" where
  "update_wgdashboard_peer E url key config_name peer_pubkey peer_privkey pname pdns
       pallowed_ips ep_allowed_ips pmtu pkeepalive srv_endpoint w =
     (let req = UpdatePeerSettings url key config_name
                  \<lparr>p_id = peer_pubkey, p_name = pname, p_private_key = peer_privkey,
                   p_DNS = pdns, p_allowed_ip = pallowed_ips,
                   p_endpoint_allowed_ip = ep_allowed_ips, p_preshared_key = [],
                   p_mtu = pmtu, p_keepalive = pkeepalive, p_remote_endpoint = srv_endpoint\<rparr>;
          w1 = w\<lparr>tick := Suc (tick w), trace := trace w @ [Http req]\<rparr>
      in case urlopen E (tick w) req of
           URLError \<Rightarrow> (Inr False, w1)
         | Raised x \<Rightarrow> (Inl (Uncaught x), w1)
         | Response status b \<Rightarrow>
             if status \<noteq> 200 then (Inr False, w1)
             else (case b of
                     NoText x \<Rightarrow> (Inl (Uncaught x), w1)
                   | Text text \<Rightarrow>
                       (case loads_body E text of
                          None \<Rightarrow> (Inr False, w1)
                        | Some (JObj obj) \<Rightarrow> (Inr (map_of obj ''status'' = Some (JBool True)), w1)
                        | Some _ \<Rightarrow> (Inl (Uncaught ''AttributeError''), w1))))"

section \<open>Config renderer (lines 131--158)\<close>

definition peer_lines :: "peer \<Rightarrow> string list" where
  "peer_lines p =
     [''[Peer]'', ''PublicKey = '' @ public_key p, ''AllowedIPs = '' @ allowed_ips p]
     @ (if endpoint p \<noteq> [] then [''Endpoint = '' @ endpoint p] else [])
     @ (if keepalive p \<noteq> [] then [''PersistentKeepalive = '' @ keepalive p] else [])
     @ [[]]"

definition create_config_text :: "string \<Rightarrow> string \<Rightarrow> string \<Rightarrow> peer list \<Rightarrow> string" where
  "create_config_text addr port interface_privkey extra_peers =
     join newline
       ([''[Interface]'',
         ''Address = '' @ addr,
         ''SaveConfig = true'',
         ''PreUp ='',
         ''PostUp ='',
         ''PreDown ='',
         ''PostDown ='',
         ''ListenPort = '' @ port,
         ''PrivateKey = '' @ interface_privkey,
         []]
        @ concat (map peer_lines extra_peers))"

section \<open>Interface controller and key generation (lines 161--199)\<close>

definition interface_running :: "env \<Rightarrow> string \<Rightarrow> world \<Rightarrow> bool \<times> world" where
  "interface_running E nm w =
     (case run_cmd E [''ip'', ''link'', ''show'', nm] [] w of ((rc, so), w1) \<Rightarrow> (rc = 0, w1))"

definition start_interface :: "env \<Rightarrow> string \<Rightarrow> world \<Rightarrow> bool \<times> world" where
  "start_interface E nm w =
     (case interface_running E nm w of
        (True, w1) \<Rightarrow> (True, w1)
      | (False, w1) \<Rightarrow>
          (case run_cmd E [''wg-quick'', ''up'', nm] [] w1 of ((rc, so), w2) \<Rightarrow> (rc = 0, w2)))"

definition stop_interface :: "env \<Rightarrow> string \<Rightarrow> world \<Rightarrow> world" where
  "stop_interface E nm w =
     (case interface_running E nm w of
        (False, w1) \<Rightarrow> w1
      | (True, w1) \<Rightarrow>
          (case run_cmd E [''wg-quick'', ''down'', nm] [] w1 of
             ((rc, so), w2) \<Rightarrow>
               if rc \<noteq> 0 then snd (run_cmd E [''ip'', ''link'', ''delete'', nm] [] w2) else w2))"

definition delete_route :: "env \<Rightarrow> string \<Rightarrow> world \<Rightarrow> string \<Rightarrow> world" where
  "delete_route E nm w raw_ip =
     (let ip_cidr = strip raw_ip
      in if ip_cidr = [] then w
         else snd (run_cmd E [''ip'', ''-4'', ''route'', ''delete'', ip_cidr, ''dev'', nm] [] w))"

definition delete_interface_and_routes :: "env \<Rightarrow> string \<Rightarrow> string \<Rightarrow> world \<Rightarrow> world" where
  "delete_interface_and_routes E nm allowed w =
     (let w1 = stop_interface E nm w;
          w2 = snd (run_cmd E [''ip'', ''link'', ''delete'', nm] [] w1)
      in foldl (delete_route E nm) w2 (split_on CHR '','' allowed))"

text \<open>
  \<open>generate_keypair\<close>: \<open>None\<close> is the \<open>CalledProcessError\<close> that \<open>check=True\<close> raises
  when \<open>wg genkey\<close> or \<open>wg pubkey\<close> returns a non-zero code. The first call runs in text
  mode and its output is stripped as a string; the second is given input, so it runs in
  bytes mode and its output is stripped as bytes and then decoded. The outputs are taken
  to be ASCII (the tool prints base64), so that decoding changes nothing.
\<close>

definition generate_keypair :: "env \<Rightarrow> world \<Rightarrow> (string \<times> string) option \<times> world" where
  "generate_keypair E w =
     (case run_cmd E [''wg'', ''genkey''] [] w of
        ((rc, so), w1) \<Rightarrow>
          if rc \<noteq> 0 then (None, w1)
          else (let priv = strip so
                in case run_cmd E [''wg'', ''pubkey''] (priv @ newline) w1 of
                     ((rc2, so2), w2) \<Rightarrow>
                       if rc2 \<noteq> 0 then (None, w2) else (Some (priv, strip_bytes so2), w2)))"

section \<open>Store cleaner (lines 202--241)\<close>

text \<open>
  SQLite's \<open>LIKE\<close>: \<open>%\<close> matches any run of characters, \<open>_\<close> any one character, and
  ASCII letters match without regard to case.
\<close>

definition lower :: "char \<Rightarrow> char" where
  "lower c = (let n = (of_char c :: nat) in if 65 \<le> n \<and> n \<le> 90 then char_of (n + 32) else c)"

fun sqlite_like :: "string \<Rightarrow> string \<Rightarrow> bool" where
  "sqlite_like [] [] = True"
| "sqlite_like [] (c # s) = False"
| "sqlite_like (p # ps) [] = (p = CHR ''%'' \<and> sqlite_like ps [])"
| "sqlite_like (p # ps) (c # s) =
     (if p = CHR ''%'' then sqlite_like ps (c # s) \<or> sqlite_like (p # ps) s
      else if p = CHR ''_'' then sqlite_like ps s
      else lower p = lower c \<and> sqlite_like ps s)"

text \<open>\<open>DELETE FROM\<close> every selected table: the rows go, the tables stay.\<close>

definition clear_tables :: "string list \<Rightarrow> world \<Rightarrow> world" where
  "clear_tables tables w =
     w\<lparr>db := map_option (map (\<lambda>(t, rows). if t \<in> set tables then (t, []) else (t, rows))) (db w),
       trace := trace w @ map DeleteFrom tables\<rparr>"

definition purge_wgdashboard_tables :: "string \<Rightarrow> world \<Rightarrow> string list \<times> world" where
  "purge_wgdashboard_tables pattern w =
     (case db w of
        None \<Rightarrow> ([], say DBMissing w)
      | Some tbls \<Rightarrow>
          (let tables = filter (sqlite_like pattern) (map fst tbls)
           in (tables, clear_tables tables w)))"

text \<open>
  The query of \<open>purge_wgdashboard_tables_for\<close> joins one \<open>name LIKE ?\<close> per name with
  \<open>OR\<close>. SQLite refuses an expression tree deeper than 1000, which this chain reaches at
  999 names: \<open>execute\<close> then raises \<open>OperationalError\<close>, nothing is deleted, and no handler
  of the program catches it.
\<close>

definition purge_wgdashboard_tables_for :: "string list \<Rightarrow> world \<Rightarrow> (exit + string list) \<times> world" where
  "purge_wgdashboard_tables_for names w =
     (case db w of
        None \<Rightarrow> (Inr [], say DBMissing w)
      | Some tbls \<Rightarrow>
          if 999 \<le> length names then (Inl (Uncaught ''OperationalError''), w)
          else (let patterns = map (\<lambda>n. n @ ''%'') names;
                    tables = filter (\<lambda>t. list_ex (\<lambda>p. sqlite_like p t) patterns) (map fst tbls)
                in (Inr tables, clear_tables tables w)))"

section \<open>Service control and pre-creation cleanup (lines 244--272)\<close>

definition restart_service :: "env \<Rightarrow> string \<Rightarrow> string \<Rightarrow> world \<Rightarrow> bool \<times> world" where
  "restart_service E nm action w =
     (case run_cmd E [''systemctl'', action, nm] [] w of ((rc, so), w1) \<Rightarrow> (rc = 0, w1))"

text \<open>
  The polling loop reads the clock; here it polls once per second of its time limit
  (the interval is one second at both call sites), so it always ends.
\<close>

fun ensure_service_active :: "env \<Rightarrow> string \<Rightarrow> nat \<Rightarrow> world \<Rightarrow> bool \<times> world" where
  "ensure_service_active E nm 0 w = (False, w)"
| "ensure_service_active E nm (Suc timeout) w =
     (case run_cmd E [''systemctl'', ''is-active'', ''--quiet'', nm] [] w of
        ((rc, so), w1) \<Rightarrow> if rc = 0 then (True, w1) else ensure_service_active E nm timeout w1)"

definition run_pre_creation_cleanup :: "env \<Rightarrow> string \<Rightarrow> world \<Rightarrow> (exit + unit) \<times> world" where
  "run_pre_creation_cleanup E service w =
     (case restart_service E service ''stop'' (say CleanupStart w) of
        (restarted, w1) \<Rightarrow>
          (case purge_wgdashboard_tables ''APW%'' w1 of
             (cleared, w2) \<Rightarrow>
               (let w3 = say (if cleared \<noteq> [] then TablesEmptied else NoTables) w2
                in if restarted
                   then (case restart_service E service ''start'' w3 of
                           (started, w4) \<Rightarrow>
                             (case ensure_service_active E service 10 w4 of
                                (active, w5) \<Rightarrow>
                                  if \<not> active
                                  then (Inl (SysExit 1), say (ServiceNotRunningAfterStart service) w5)
                                  else (Inr (), w5)))
                   else (Inr (), w3))))"

section \<open>Bulk deletion of records (lines 275--291)\<close>

text \<open>
  \<open>Path.stem\<close> of a name that matched \<open>*.conf\<close>: the name without its last suffix; the
  name \<open>.conf\<close> itself has no suffix.
\<close>

definition stem :: "string \<Rightarrow> string" where
  "stem f = (if length f \<le> 5 then f else take (length f - 5) f)"

text \<open>
  One round of the loop over \<open>target_dir.glob("*.conf")\<close>. \<open>unlink\<close> raises \<open>OSError\<close>
  where \<open>unlink_fails\<close> says so, and the file stays.
\<close>

definition delete_one :: "env \<Rightarrow> string list option \<Rightarrow> world \<times> nat \<Rightarrow> string \<Rightarrow> world \<times> nat" where
  "delete_one E allowed_names s conf_file =
     (case s of
        (w, count) \<Rightarrow>
          if startswith conf_file ''_'' then (say (SkipUnderscore conf_file) w, count)
          else if (case allowed_names of None \<Rightarrow> False | Some names \<Rightarrow> stem conf_file \<notin> set names)
          then (w, count)
          else if unlink_fails E conf_file
          then (say (DeleteError conf_file) (emit (Unlink conf_file) w), count)
          else (say (Deleted conf_file)
                  (w\<lparr>files := AList.delete conf_file (files w),
                     trace := trace w @ [Unlink conf_file]\<rparr>), count + 1))"

definition delete_existing_configs :: "env \<Rightarrow> string list option \<Rightarrow> world \<Rightarrow> world" where
  "delete_existing_configs E allowed_names w =
     (case foldl (delete_one E allowed_names) (say DeletingExisting w, 0)
             (filter (\<lambda>f. endswith f ''.conf'') (map fst (files w))) of
        (w1, count) \<Rightarrow> say (Processed count) w1)"

section \<open>Batch orchestrator (lines 391--643)\<close>

text \<open>
  Files of the target directory are named by their file name; \<open>target_dir / f"{name}.conf"\<close>
  is the file \<open>name.conf\<close>. Writing into the target directory, once it has passed the
  check of line 457, is taken to succeed.
\<close>

definition conf_path :: "string \<Rightarrow> string" where
  "conf_path nm = nm @ ''.conf''"


subsection \<open>Delete-only branch (lines 465--484)\<close>

fun delete_named :: "env \<Rightarrow> args \<Rightarrow> string list \<Rightarrow> world \<Rightarrow> (exit + unit) \<times> world" where
  "delete_named E A [] w = (Inr (), w)"
| "delete_named E A (nm # rest) w =
     (let filepath = conf_path nm
      in if dry_run A then delete_named E A rest (say (WouldDelete filepath) w)
         else (let w1 = delete_interface_and_routes E nm (peer_allowed_ips A) w
               in if path_exists w1 filepath
                  then (if unlink_fails E filepath
                        then (Inl (Uncaught ''OSError''), emit (Unlink filepath) w1)
                        else delete_named E A rest
                               (say (Deleted filepath)
                                  (w1\<lparr>files := AList.delete filepath (files w1),
                                      trace := trace w1 @ [Unlink filepath]\<rparr>)))
                  else delete_named E A rest w1))"

definition delete_only_branch ::
  "env \<Rightarrow> args \<Rightarrow> string \<Rightarrow> nat \<Rightarrow> nat \<Rightarrow> nat \<Rightarrow> world \<Rightarrow> (exit + unit) \<times> world" where
  "delete_only_branch E A pfx start_num end_num digits w =
     (let w0 = (if dry_run A then say (DryRunDeleteRange start_num end_num pfx) w else w);
          names_to_delete = scope_names pfx start_num end_num digits
      in case (if \<not> dry_run A
               then (case purge_wgdashboard_tables_for names_to_delete w0 of
                       (Inl e, w') \<Rightarrow> (Inl e, w')
                     | (Inr cleared, w') \<Rightarrow>
                         (Inr (), if cleared \<noteq> [] then say (TablesCleared cleared) w' else w'))
               else (Inr (), w0)) of
           (Inl e, w1) \<Rightarrow> (Inl e, w1)
         | (Inr u, w1) \<Rightarrow>
             (case delete_named E A names_to_delete w1 of
                (Inl e, w2) \<Rightarrow> (Inl e, w2)
              | (Inr u, w2) \<Rightarrow> (Inr (), say DeleteRunDone w2)))"

subsection \<open>Creation loop (lines 490--553)\<close>

record counters =
  total :: nat
  created :: nat
  skipped :: nat
  errors :: nat
  summary :: "(string \<times> string \<times> peer list) list"

definition counters0 :: counters where
  "counters0 = \<lparr>total = 0, created = 0, skipped = 0, errors = 0, summary = []\<rparr>"

text \<open>
  Lines 518--535: one fresh key pair per peer template; \<open>None\<close> when one of the calls
  raises, and the peers built so far are dropped.
\<close>

fun gen_peers :: "env \<Rightarrow> peer_template list \<Rightarrow> world \<Rightarrow> peer list option \<times> world" where
  "gen_peers E [] w = (Some [], w)"
| "gen_peers E (t # ts) w =
     (case generate_keypair E w of
        (None, w1) \<Rightarrow> (None, w1)
      | (Some (priv, pub), w1) \<Rightarrow>
          (case gen_peers E ts w1 of
             (None, w2) \<Rightarrow> (None, w2)
           | (Some ps, w2) \<Rightarrow>
               (Some (\<lparr>name = t_name t, public_key = pub, private_key = priv,
                       allowed_ips = t_allowed_ips t, endpoint = t_endpoint t,
                       keepalive = t_keepalive t\<rparr> # ps), w2)))"

text \<open>The body of the loop of line 494, for the index \<open>i\<close>.\<close>

definition create_one ::
  "env \<Rightarrow> args \<Rightarrow> peer_template list \<Rightarrow> string \<Rightarrow> nat \<Rightarrow> world \<times> counters \<Rightarrow> nat \<Rightarrow> world \<times> counters" where
  "create_one E A extra_peers pfx digits s i =
     (case s of
        (w, c) \<Rightarrow>
          (let c0 = c\<lparr>total := total c + 1\<rparr>;
               config_name = pfx @ format_number (int i) digits;
               filepath = conf_path config_name;
               w0 = say (EntityHeader config_name) w
           in if path_exists w0 filepath \<and> \<not> delete_existing A
              then (say Exists w0, c0\<lparr>skipped := skipped c0 + 1\<rparr>)
              else (case generate_keypair E w0 of
                      (None, w1) \<Rightarrow> (say KeygenError w1, c0\<lparr>errors := errors c0 + 1\<rparr>)
                    | (Some (interface_privkey, interface_pubkey), w1) \<Rightarrow>
                        (case gen_peers E extra_peers
                                (say (KeysShown (take 15 interface_privkey) (take 15 interface_pubkey)) w1) of
                           (None, w2) \<Rightarrow> (say PeerKeygenError w2, c0\<lparr>errors := errors c0 + 1\<rparr>)
                         | (Some peers_for_conf, w2) \<Rightarrow>
                             (let c1 = c0\<lparr>summary := summary c0 @ [(config_name, interface_pubkey, peers_for_conf)]\<rparr>
                              in if dry_run A
                                 then (say (WouldCreate filepath) w2, c1\<lparr>created := created c1 + 1\<rparr>)
                                 else (let config_text = create_config_text (address A) (listen_port A)
                                                           interface_privkey peers_for_conf;
                                           w3 = w2\<lparr>files := AList.update filepath config_text (files w2),
                                                   trace := trace w2 @ [WriteText filepath config_text,
                                                                        Chmod filepath 384]\<rparr>
                                       in (say (ConfigCreated filepath) w3,
                                           c1\<lparr>created := created c1 + 1\<rparr>)))))))"

definition creation_loop ::
  "env \<Rightarrow> args \<Rightarrow> peer_template list \<Rightarrow> string \<Rightarrow> nat \<Rightarrow> nat list \<Rightarrow> world \<times> counters \<Rightarrow> world \<times> counters" where
  "creation_loop E A extra_peers pfx digits idxs s = foldl (create_one E A extra_peers pfx digits) s idxs"

subsection \<open>Registration phase (lines 556--611)\<close>

fun push_peers ::
  "env \<Rightarrow> args \<Rightarrow> string \<Rightarrow> string \<Rightarrow> peer list \<Rightarrow> nat \<Rightarrow> nat \<Rightarrow> world \<Rightarrow> (exit + nat \<times> nat) \<times> world" where
  "push_peers E A key config_name [] api_success api_failed w = (Inr (api_success, api_failed), w)"
| "push_peers E A key config_name (p # ps) api_success api_failed w =
     (let pname = (if name p \<noteq> [] then name p else peer_name A)
      in case update_wgdashboard_peer E (dashboard_url A) key config_name (public_key p)
                (private_key p) pname (peer_dns A) (allowed_ips p) (endpoint_allowed_ips A)
                (peer_mtu A) (peer_keepalive A) (server_endpoint A) w of
           (Inl e, w1) \<Rightarrow> (Inl e, w1)
         | (Inr ok, w1) \<Rightarrow>
             if ok then push_peers E A key config_name ps (api_success + 1) api_failed (say (PeerOK pname) w1)
             else push_peers E A key config_name ps api_success (api_failed + 1) (say (PeerFAIL pname) w1))"

fun register_entities ::
  "env \<Rightarrow> args \<Rightarrow> string \<Rightarrow> (string \<times> string \<times> peer list) list \<Rightarrow> nat \<Rightarrow> nat \<Rightarrow> world
     \<Rightarrow> (exit + nat \<times> nat) \<times> world" where
  "register_entities E A key [] api_success api_failed w = (Inr (api_success, api_failed), w)"
| "register_entities E A key ((config_name, interface_pub, peers_for_conf) # rest) api_success api_failed w =
     (if peers_for_conf = [] then register_entities E A key rest api_success api_failed w
      else (case start_interface E config_name (say (EntityLine config_name) w) of
              (False, w1) \<Rightarrow>
                register_entities E A key rest api_success (api_failed + length peers_for_conf)
                  (say InterfaceStartFailed w1)
            | (True, w1) \<Rightarrow>
                (case push_peers E A key config_name peers_for_conf api_success api_failed w1 of
                   (Inl e, w2) \<Rightarrow> (Inl e, w2)
                 | (Inr (s, f), w2) \<Rightarrow>
                     register_entities E A key rest s f (stop_interface E config_name w2))))"

definition restart_prompt :: "env \<Rightarrow> args \<Rightarrow> world \<Rightarrow> (exit + unit) \<times> world" where
  "restart_prompt E A w =
     (let restart_choice = strip (in_restart E)
      in if startswith (map lower restart_choice) ''j''
         then (case restart_service E (dashboard_service A) ''restart'' (say Restarting w) of
                 (restarted, w1) \<Rightarrow>
                   (case ensure_service_active E (dashboard_service A) 15 w1 of
                      (active, w2) \<Rightarrow>
                        if \<not> active
                        then (Inl (SysExit 1), say (ServiceNotRunningAfterRestart (dashboard_service A)) w2)
                        else (Inr (), say ServiceActive w2)))
         else (Inr (), w))"

definition registration_phase :: "env \<Rightarrow> args \<Rightarrow> string \<Rightarrow> counters \<Rightarrow> world \<Rightarrow> (exit + unit) \<times> world" where
  "registration_phase E A key c w =
     (if \<not> dry_run A \<and> created c > 0
      then (case restart_prompt E A (say RestartHint (say UpdatingPeers w)) of
              (Inl e, w1) \<Rightarrow> (Inl e, w1)
            | (Inr u, w1) \<Rightarrow>
                (case register_entities E A key (summary c) 0 0 w1 of
                   (Inl e, w2) \<Rightarrow> (Inl e, w2)
                 | (Inr (s, f), w2) \<Rightarrow> (Inr (), say (ApiTotals s f) w2)))
      else (Inr (), w))"

subsection \<open>Summary (lines 613--643) and the whole run\<close>

definition report :: "args \<Rightarrow> counters \<Rightarrow> world \<Rightarrow> world" where
  "report A c w =
     (let w1 = say (Totals (total c) (created c) (skipped c) (errors c)) w;
          w2 = (if summary c \<noteq> [] then say (KeyReport (summary c)) w1 else w1)
      in say (if dry_run A then DryRunDone else Done) w2)"

definition create_branch ::
  "env \<Rightarrow> args \<Rightarrow> peer_template list \<Rightarrow> string \<Rightarrow> string \<Rightarrow> nat \<Rightarrow> nat \<Rightarrow> nat \<Rightarrow> world
     \<Rightarrow> (exit + unit) \<times> world" where
  "create_branch E A extra_peers key pfx start_num end_num digits w =
     (case (if \<not> dry_run A then run_pre_creation_cleanup E (dashboard_service A) w else (Inr (), w)) of
        (Inl e, w1) \<Rightarrow> (Inl e, w1)
      | (Inr u, w1) \<Rightarrow>
          (case creation_loop E A extra_peers pfx digits [start_num..<Suc end_num] (w1, counters0) of
             (w2, c) \<Rightarrow>
               (case registration_phase E A key c w2 of
                  (Inl e, w3) \<Rightarrow> (Inl e, w3)
                | (Inr u, w3) \<Rightarrow> (Inr (), report A c w3))))"





section \<open>A reader for the record file format\<close>

text \<open>
  Modelled from the spec: the repository has no reader for the records it writes. The
  record file format is one interface section of \<open>Key = Value\<close> lines, so the reader splits
  the text at line breaks and takes, for each of the three keys, the value of the first
  line that starts with the key followed by \<open> = \<close>.
\<close>

definition lookup_key :: "string \<Rightarrow> string list \<Rightarrow> string option" where
  "lookup_key k ls =
     (case filter (\<lambda>l. startswith l (k @ '' = '')) ls of
        [] \<Rightarrow> None
      | l # rest \<Rightarrow> Some (drop (length k + 3) l))"

definition parse_interface :: "string \<Rightarrow> (string \<times> string \<times> string) option" where
  "parse_interface text =
     (let ls = split_on CHR 0x0A text
      in case lookup_key ''Address'' ls of
           None \<Rightarrow> None
         | Some a \<Rightarrow>
             (case lookup_key ''ListenPort'' ls of
                None \<Rightarrow> None
              | Some p \<Rightarrow>
                  (case lookup_key ''PrivateKey'' ls of
                     None \<Rightarrow> None
                   | Some k \<Rightarrow> Some (a, p, k))))"

section \<open>Effects that change nothing\<close>

text \<open>
  The operations that leave the surroundings as they are: a lookup on \<open>PATH\<close>, the
  handshake request, and the two key computations \<open>wg genkey\<close> and \<open>wg pubkey\<close>. Every
  other operation writes or removes a file, clears a table, changes an interface, a route
  or a service, or posts to the API.
\<close>

fun read_only_effect :: "effect \<Rightarrow> bool" where
  "read_only_effect (Which b) = True"
| "read_only_effect (Http (Handshake u k)) = True"
| "read_only_effect (Http (UpdatePeerSettings u k c p)) = False"
| "read_only_effect (Run cmd) = (cmd = [''wg'', ''genkey''] \<or> cmd = [''wg'', ''pubkey''])"
| "read_only_effect (Mkdir d) = False"
| "read_only_effect (WriteText f t) = False"
| "read_only_effect (Chmod f m) = False"
| "read_only_effect (Unlink f) = False"
| "read_only_effect (DeleteFrom t) = False"

text \<open>
  \<open>untouched w w'\<close>: from \<open>w\<close> to \<open>w'\<close> the files and the store are the same, and the
  operations issued in between are all read-only.
\<close>

definition untouched :: "world \<Rightarrow> world \<Rightarrow> bool" where
  "untouched w w' =
     (files w' = files w \<and> db w' = db w
      \<and> take (length (trace w)) (trace w') = trace w
      \<and> list_all read_only_effect (drop (length (trace w)) (trace w')))"

section \<open>Keys by the call that produced them\<close>







section \<open>A sample configuration\<close>

text \<open>
  The scenario of the specification: prefix \<open>APW\<close>, one peer template with
  \<open>allowed_ips = 10.0.0.2/32\<close>, in surroundings where every command succeeds, the
  \<open>n\<close>-th command prints \<open>key\<close> followed by \<open>n\<close>, and the API answers with a success body.
\<close>

definition env0 :: env where
  "env0 = \<lparr>which = (\<lambda>b. True),
            exec = (\<lambda>n cmd inp. (0, ''key'' @ str_nat n)),
            urlopen = (\<lambda>n req. Response 200 (Text ''ok'')),
            json_loads = (\<lambda>s. if s = ''ok'' then Some (JObj [(''status'', JBool True)]) else None),
            access_w = True,
            unlink_fails = (\<lambda>f. False),
            in_prefix = ''APW'', in_start = ''1'', in_end = ''3'', in_api_key = ''secret'',
            in_restart = ''j''\<rparr>"

definition args0 :: args where
  "args0 = \<lparr>prefix = Some ''APW'', start = Some 1, end_arg = Some 3, api_key = Some ''secret'',
             target_dir = ''/etc/wireguard'', address = ''10.0.0.1/24'', listen_port = ''51820'',
             peer_allowed_ips = ''10.0.0.2/32'', peer_name = ''client'',
             server_endpoint = ''vpn.example.org:51820'', delete_existing = False, dry_run = False,
             dashboard_url = ''http://localhost:10086'', dashboard_db = ''/opt/db/wgdashboard.db'',
             dashboard_service = ''wg-dashboard'', peer_dns = ''1.1.1.1'', peer_mtu = 1420,
             peer_keepalive = 21, endpoint_allowed_ips = ''0.0.0.0/0'', delete_only = False\<rparr>"

definition templates0 :: "peer_template list" where
  "templates0 = [\<lparr>t_name = ''laptop'', t_public_key = ''CONFIGURED'', t_allowed_ips = ''10.0.0.2/32'',
                   t_endpoint = [], t_keepalive = ''25''\<rparr>]"

definition world0 :: world where
  "world0 = \<lparr>tick = 0, files = [],
              db = Some [(''APW1'', [''row'']), (''APW2'', [''row'']), (''APW20'', [''row'']),
                         (''APW3'', [''row''])],
              trace = [], out = []\<rparr>"

text \<open>Surroundings whose API answers every update with HTTP 200 and a body that denies success.\<close>

definition env_status_false :: env where
  \<open>env_status_false =
     env0\<lparr>urlopen := (\<lambda>n req. Response 200 (Text ''{"status": false}'')),
          json_loads := (\<lambda>s. if s = ''{"status": false}'' then Some (JObj [(''status'', JBool False)])
                              else None)\<rparr>\<close>


text \<open>
  Surroundings whose API answers the handshake as before and every update with HTTP 200
  and the body \<open>[]\<close>, which is valid JSON but not an object.
\<close>

definition env_list_body :: env where
  "env_list_body =
     env0\<lparr>urlopen := (\<lambda>n req. case req of Handshake u k \<Rightarrow> Response 200 (Text ''ok'')
                                  | UpdatePeerSettings u k c p \<Rightarrow> Response 200 (Text ''[]'')),
          json_loads := (\<lambda>s. if s = ''[]'' then Some (JArr [])
                              else if s = ''ok'' then Some (JObj [(''status'', JBool True)])
                              else None)\<rparr>"

text \<open>Surroundings in which the server closes every connection without an answer.\<close>

definition env_disconnect :: env where
  "env_disconnect = env0\<lparr>urlopen := (\<lambda>n req. Raised ''RemoteDisconnected'')\<rparr>"

text \<open>Surroundings whose API answers every update with HTTP 200 and bytes that are not UTF-8.\<close>

definition env_bad_bytes :: env where
  "env_bad_bytes =
     env0\<lparr>urlopen := (\<lambda>n req. case req of Handshake u k \<Rightarrow> Response 200 (Text ''ok'')
                                  | UpdatePeerSettings u k c p \<Rightarrow>
                                      Response 200 (NoText ''UnicodeDecodeError''))\<rparr>"

section \<open>Properties of the scope computation\<close>

lemma digit_val_char: "d < 10 \<Longrightarrow> digit_val (digit_char d) = d"
  unfolding digit_char_def digit_val_def
  by (auto simp: less_Suc_eq numeral_eq_Suc)

lemma digit_val_less: "is_digit c \<Longrightarrow> digit_val c < 10"
  unfolding digit_val_def is_digit_def by auto

lemma str_nat_step:
  "d < 10 \<Longrightarrow> str_nat (10 * m + d) = (if m = 0 then [digit_char d] else str_nat m @ [digit_char d])"
  by (subst str_nat.simps) auto

lemma py_int_snoc: "py_int (s @ [c]) = 10 * py_int s + digit_val c"
  by (simp add: py_int_def)

lemma py_int_str_nat: "py_int (str_nat n) = n"
proof (induction n rule: str_nat.induct)
  case (1 n)
  show ?case
  proof (cases "n < 10")
    case True
    then show ?thesis by (subst str_nat.simps) (simp add: py_int_def digit_val_char)
  next
    case False
    then have "py_int (str_nat (n div 10)) = n div 10" using 1 by simp
    with False show ?thesis
      by (subst str_nat.simps) (simp add: py_int_snoc digit_val_char)
  qed
qed

lemma py_int_zero_Cons: "py_int (CHR ''0'' # t) = py_int t"
proof (induction t rule: rev_induct)
  case Nil
  show ?case by (simp add: py_int_def digit_val_def)
next
  case (snoc x xs)
  have "py_int (CHR ''0'' # xs @ [x]) = py_int ((CHR ''0'' # xs) @ [x])" by simp
  also have "\<dots> = 10 * py_int (CHR ''0'' # xs) + digit_val x" by (rule py_int_snoc)
  finally show ?case using snoc by (simp add: py_int_snoc)
qed

lemma py_int_zfill: "py_int (zfill w (str_nat n)) = n"
proof -
  have "py_int (replicate k CHR ''0'' @ s) = py_int s" for k s
    by (induction k) (simp_all add: py_int_zero_Cons)
  then show ?thesis by (simp add: zfill_def py_int_str_nat)
qed

lemma length_str_nat_pos: "0 < length (str_nat n)"
  by (subst str_nat.simps) simp

lemma length_str_nat_mono: "m \<le> n \<Longrightarrow> length (str_nat m) \<le> length (str_nat n)"
proof (induction n arbitrary: m rule: str_nat.induct)
  case (1 n)
  show ?case
  proof (cases "m < 10")
    case True
    then have "length (str_nat m) = 1" by (subst str_nat.simps) simp
    then show ?thesis using length_str_nat_pos [of n] by (simp add: Suc_leI)
  next
    case False
    then have n: "\<not> n < 10" using 1(2) by simp
    have "m div 10 \<le> n div 10" using 1(2) by (rule div_le_mono)
    then have "length (str_nat (m div 10)) \<le> length (str_nat (n div 10))"
      using 1(1) n by simp
    then show ?thesis using False n
      by (subst str_nat.simps, subst (2) str_nat.simps) simp
  qed
qed

lemma length_str_nat_py_int:
  "isdigit s \<Longrightarrow> length (str_nat (py_int s)) \<le> length s"
  unfolding isdigit_def
proof (induction s rule: rev_induct)
  case Nil
  then show ?case by simp
next
  case (snoc c s)
  then have c: "digit_val c < 10" using digit_val_less by simp
  show ?case
  proof (cases "s = []")
    case True
    then show ?thesis using c by (simp add: py_int_snoc py_int_def str_nat_step [of _ 0, simplified])
  next
    case False
    then have "length (str_nat (py_int s)) \<le> length s" using snoc by simp
    then show ?thesis using c by (simp add: py_int_snoc str_nat_step)
  qed
qed

lemma length_format_number:
  "length (str_nat n) \<le> digits \<Longrightarrow> length (format_number (int n) digits) = digits"
  by (simp add: format_number_def zfill_def)

lemma format_number_inj:
  assumes "format_number (int m) digits = format_number (int n) digits"
  shows "m = n"
proof -
  from assms have "py_int (zfill digits (str_nat m)) = py_int (zfill digits (str_nat n))"
    by (simp add: format_number_def)
  then show ?thesis by (simp add: py_int_zfill)
qed

lemma distinct_scope_names: "distinct (scope_names pfx a b digits)"
  unfolding scope_names_def
  by (auto simp: distinct_map simp del: upt_Suc intro!: inj_onI dest: format_number_inj)

lemma length_scope_names: "length (scope_names pfx a b digits) = Suc b - a"
  by (simp add: scope_names_def del: upt_Suc)

lemma scope_name_width:
  assumes "isdigit e" "n \<in> set (scope_names pfx a (py_int e) digits)" "length e \<le> digits"
  shows "length n = length pfx + digits"
proof -
  from assms(2) have "\<exists>i. i < Suc (py_int e) \<and> n = pfx @ format_number (int i) digits"
    by (auto simp: scope_names_def simp del: upt_Suc)
  then obtain i where i: "i \<le> py_int e" "n = pfx @ format_number (int i) digits"
    by (auto simp: less_Suc_eq_le)
  have "length (str_nat i) \<le> length (str_nat (py_int e))"
    using i(1) by (rule length_str_nat_mono)
  also have "\<dots> \<le> length e" using assms(1) by (rule length_str_nat_py_int)
  finally have "length (str_nat i) \<le> digits" using assms(3) by simp
  then show ?thesis using i(2) by (simp add: length_format_number)
qed

text \<open>
  C2 (as stated, refuted): the digit width is the maximum of the lengths of
  \<open>str(start)\<close> and \<open>str(end)\<close>. At the prompt answers \<open>007\<close> and \<open>009\<close> the numbers are
  7 and 9, whose decimal texts have length 1, but the width used is 3 and the names are
  \<open>APW007\<close>, \<open>APW008\<close>, \<open>APW009\<close>.
\<close>

theorem C2_width_counterexample:
  "isdigit ''007'' \<and> isdigit ''009'' \<and> py_int ''007'' \<le> py_int ''009''
   \<and> digits_of ''007'' ''009'' = 3
   \<and> max (length (str_nat (py_int ''007''))) (length (str_nat (py_int ''009''))) = 1
   \<and> names_in_scope ''APW'' ''007'' ''009'' = {''APW007'', ''APW008'', ''APW009''}"
  by code_simp

text \<open>
  C2 (amended): for digit texts \<open>start_num_str\<close>, \<open>end_num_str\<close> with \<open>start <= end\<close>, the
  name set has exactly \<open>end - start + 1\<close> members, every name is the prefix followed by
  exactly \<open>digits\<close> characters, where \<open>digits\<close> is the larger of the lengths of the two
  texts as entered; that width is at least the larger length of \<open>str(start)\<close> and
  \<open>str(end)\<close>, and equal to it when both texts are the canonical decimal texts (as they
  are when the numbers come from the \<open>-s\<close>/\<open>-e\<close> flags).
\<close>

theorem C2_scope_names:
  assumes "isdigit s" and "isdigit e" and "py_int s \<le> py_int e"
  shows "card (names_in_scope pfx s e) = py_int e - py_int s + 1
    \<and> (\<forall>n \<in> names_in_scope pfx s e. length n = length pfx + digits_of s e)
    \<and> max (length (str_nat (py_int s))) (length (str_nat (py_int e))) \<le> digits_of s e
    \<and> (s = str_nat (py_int s) \<and> e = str_nat (py_int e) \<longrightarrow>
         digits_of s e = max (length (str_nat (py_int s))) (length (str_nat (py_int e))))"
proof -
  have "card (names_in_scope pfx s e) = length (scope_names pfx (py_int s) (py_int e) (digits_of s e))"
    unfolding names_in_scope_def by (rule distinct_card) (rule distinct_scope_names)
  then have card: "card (names_in_scope pfx s e) = py_int e - py_int s + 1"
    using assms(3) by (simp add: length_scope_names Suc_diff_le)
  have width: "\<forall>n \<in> names_in_scope pfx s e. length n = length pfx + digits_of s e"
    unfolding names_in_scope_def
    using scope_name_width [OF assms(2)] by (simp add: digits_of_def)
  have lower: "max (length (str_nat (py_int s))) (length (str_nat (py_int e))) \<le> digits_of s e"
    using length_str_nat_py_int [OF assms(1)] length_str_nat_py_int [OF assms(2)]
    by (auto simp: digits_of_def max_def)
  have canon: "s = str_nat (py_int s) \<and> e = str_nat (py_int e) \<longrightarrow>
      digits_of s e = max (length (str_nat (py_int s))) (length (str_nat (py_int e)))"
    by (auto simp: digits_of_def)
  from card width lower canon show ?thesis by blast
qed

theorem C2_scope_names_witness:
  "isdigit ''1'' \<and> isdigit ''10'' \<and> py_int ''1'' \<le> py_int ''10''
   \<and> card (names_in_scope ''APW'' ''1'' ''10'') = 10
   \<and> ''APW07'' \<in> names_in_scope ''APW'' ''1'' ''10''
   \<and> length ''APW07'' = length ''APW'' + digits_of ''1'' ''10''"
proof -
  have h: "isdigit ''1''" "isdigit ''10''" "py_int ''1'' \<le> py_int ''10''"
    by code_simp+
  have v: "py_int ''1'' = 1" "py_int ''10'' = 10"
    by code_simp+
  have m: "''APW07'' \<in> names_in_scope ''APW'' ''1'' ''10''"
    by code_simp
  from C2_scope_names [OF h, of "''APW''"] h m show ?thesis
    by (auto simp: v)
qed

section \<open>Store cleaner: prefix patterns\<close>

lemma sqlite_like_percent_skip: "sqlite_like p s \<Longrightarrow> sqlite_like (CHR ''%'' # p) (x @ s)"
proof (induction x)
  case Nil
  then show ?case by (cases s) auto
next
  case (Cons a x)
  then show ?case by simp
qed

lemma sqlite_like_prefix: "sqlite_like (n @ ''%'') (n @ t)"
proof (induction n)
  case Nil
  show ?case by (induction t) simp_all
next
  case (Cons a n)
  show ?case
  proof (cases "a = CHR ''%''")
    case True
    have "sqlite_like (CHR ''%'' # n @ ''%'') ([CHR ''%''] @ (n @ t))"
      using Cons by (rule sqlite_like_percent_skip)
    with True show ?thesis by simp
  next
    case False
    with Cons show ?thesis by simp
  qed
qed

lemma purge_for_clears_prefixed:
  assumes "db w = Some tbls" "n \<in> set names" "(n @ t, rows) \<in> set tbls" "length names < 999"
  shows "\<exists>cleared. fst (purge_wgdashboard_tables_for names w) = Inr cleared \<and> n @ t \<in> set cleared"
proof -
  have "list_ex (\<lambda>p. sqlite_like p (n @ t)) (map (\<lambda>n. n @ ''%'') names)"
    using assms(2) sqlite_like_prefix by (auto simp: list_ex_iff)
  moreover have "n @ t \<in> set (map fst tbls)" using assms(3) by force
  ultimately show ?thesis using assms(1,4)
    by (simp add: purge_wgdashboard_tables_for_def Let_def)
qed

text \<open>
  C9: the delete-only purge selects tables by the patterns \<open>name%\<close>. With prefix \<open>APW\<close> and
  range 2--2 the only scope name is \<open>APW2\<close>, and on a store with the tables \<open>APW1\<close>,
  \<open>APW2\<close>, \<open>APW20\<close>, \<open>APW3\<close> the purge clears \<open>APW2\<close> and also \<open>APW20\<close>, which is not
  in the name set.
\<close>

theorem C9_purge_beyond_scope:
  "scope_names ''APW'' 2 2 1 = [''APW2'']
   \<and> names_in_scope ''APW'' ''2'' ''2'' = {''APW2''}
   \<and> fst (purge_wgdashboard_tables_for (scope_names ''APW'' 2 2 1) world0)
       = Inr [''APW2'', ''APW20'']
   \<and> db (snd (delete_only_branch env0 (args0\<lparr>delete_only := True\<rparr>) ''APW'' 2 2 1 world0))
       = Some [(''APW1'', [''row'']), (''APW2'', []), (''APW20'', []), (''APW3'', [''row''])]
   \<and> ''APW20'' \<notin> names_in_scope ''APW'' ''2'' ''2''"
  by code_simp

section \<open>C5: what \<open>update_wgdashboard_peer\<close> returns\<close>

lemma update_wgdashboard_peer_success_iff:
  "fst (update_wgdashboard_peer E u key cn pub priv pname pdns pa ea mtu ka se w) = Inr True
     \<longleftrightarrow> (\<exists>t obj. urlopen E (tick w) (UpdatePeerSettings u key cn
                        \<lparr>p_id = pub, p_name = pname, p_private_key = priv, p_DNS = pdns,
                         p_allowed_ip = pa, p_endpoint_allowed_ip = ea, p_preshared_key = [],
                         p_mtu = mtu, p_keepalive = ka, p_remote_endpoint = se\<rparr>)
                      = Response 200 (Text t)
                  \<and> loads_body E t = Some (JObj obj)
                  \<and> map_of obj ''status'' = Some (JBool True))"
  by (auto simp: update_wgdashboard_peer_def Let_def
        split: http_result.splits body.splits option.splits json.splits)

lemma update_wgdashboard_peer_failure:
  assumes "r = urlopen E (tick w) (UpdatePeerSettings u key cn
                        \<lparr>p_id = pub, p_name = pname, p_private_key = priv, p_DNS = pdns,
                         p_allowed_ip = pa, p_endpoint_allowed_ip = ea, p_preshared_key = [],
                         p_mtu = mtu, p_keepalive = ka, p_remote_endpoint = se\<rparr>)"
      and "r = URLError \<or> (\<exists>st b. r = Response st b \<and> st \<noteq> 200)
           \<or> (\<exists>t. r = Response 200 (Text t)
                \<and> (loads_body E t = None
                   \<or> (\<exists>obj. loads_body E t = Some (JObj obj)
                             \<and> map_of obj ''status'' \<noteq> Some (JBool True))))"
  shows "fst (update_wgdashboard_peer E u key cn pub priv pname pdns pa ea mtu ka se w) = Inr False"
  using assms
  by (auto simp: update_wgdashboard_peer_def Let_def
        split: http_result.splits body.splits option.splits json.splits)

text \<open>
  C5: a registration is reported as successful exactly for a 200 answer whose body is a
  JSON object with \<open>status\<close> true (lemma \<open>update_wgdashboard_peer_success_iff\<close>), and the
  body \<open>{"status": false}\<close> gives a failure. But not every other answer gives a failure:
  a 200 answer with the body \<open>[]\<close>, which lacks the field, raises \<open>AttributeError\<close>; a
  connection closed without an answer raises \<open>RemoteDisconnected\<close>; and a 200 answer whose
  bytes are not UTF-8 raises \<open>UnicodeDecodeError\<close>. None of them is caught.
\<close>

theorem C5_bad_answers_raise:
  "fst (update_wgdashboard_peer env_status_false ''http://localhost:10086'' ''secret'' ''APW1''
          ''pub'' ''priv'' ''laptop'' ''1.1.1.1'' ''10.0.0.2/32'' ''0.0.0.0/0'' 1420 21
          ''vpn.example.org:51820'' world0) = Inr False
   \<and> fst (update_wgdashboard_peer env_list_body ''http://localhost:10086'' ''secret'' ''APW1''
          ''pub'' ''priv'' ''laptop'' ''1.1.1.1'' ''10.0.0.2/32'' ''0.0.0.0/0'' 1420 21
          ''vpn.example.org:51820'' world0) = Inl (Uncaught ''AttributeError'')
   \<and> fst (update_wgdashboard_peer env_disconnect ''http://localhost:10086'' ''secret'' ''APW1''
          ''pub'' ''priv'' ''laptop'' ''1.1.1.1'' ''10.0.0.2/32'' ''0.0.0.0/0'' 1420 21
          ''vpn.example.org:51820'' world0) = Inl (Uncaught ''RemoteDisconnected'')
   \<and> fst (update_wgdashboard_peer env_bad_bytes ''http://localhost:10086'' ''secret'' ''APW1''
          ''pub'' ''priv'' ''laptop'' ''1.1.1.1'' ''10.0.0.2/32'' ''0.0.0.0/0'' 1420 21
          ''vpn.example.org:51820'' world0) = Inl (Uncaught ''UnicodeDecodeError'')"
  by code_simp

section \<open>Config renderer: reading a record back\<close>

lemma split_on_line:
  "c \<notin> set a \<Longrightarrow> split_on c (a @ c # b) = a # split_on c b"
  by (induction a) auto

lemma join_empty_Cons: "join sep ([] # rest) = (if rest = [] then [] else sep @ join sep rest)"
  by (cases rest) auto

lemma interface_lines:
  assumes "CHR 0x0A \<notin> set addr" "CHR 0x0A \<notin> set port" "CHR 0x0A \<notin> set k"
  shows "\<exists>rest. split_on CHR 0x0A (create_config_text addr port k ps) =
     [''[Interface]'', ''Address = '' @ addr, ''SaveConfig = true'', ''PreUp ='', ''PostUp ='',
      ''PreDown ='', ''PostDown ='', ''ListenPort = '' @ port, ''PrivateKey = '' @ k] @ rest"
proof -
  have l: "split_on CHR 0x0A (addr @ CHR 0x0A # b) = addr # split_on CHR 0x0A b"
    "split_on CHR 0x0A (port @ CHR 0x0A # b) = port # split_on CHR 0x0A b"
    "split_on CHR 0x0A (k @ CHR 0x0A # b) = k # split_on CHR 0x0A b" for b
    using assms by (simp_all add: split_on_line)
  have "create_config_text addr port k ps =
      ''[Interface]'' @ CHR 0x0A # (''Address = '' @ addr) @ CHR 0x0A # ''SaveConfig = true'' @ CHR 0x0A #
      ''PreUp ='' @ CHR 0x0A # ''PostUp ='' @ CHR 0x0A # ''PreDown ='' @ CHR 0x0A # ''PostDown ='' @ CHR 0x0A #
      (''ListenPort = '' @ port) @ CHR 0x0A # (''PrivateKey = '' @ k) @ CHR 0x0A #
      join newline ([] # concat (map peer_lines ps))"
    by (simp add: create_config_text_def newline_def)
  then have "split_on CHR 0x0A (create_config_text addr port k ps) =
     [''[Interface]'', ''Address = '' @ addr, ''SaveConfig = true'', ''PreUp ='', ''PostUp ='',
      ''PreDown ='', ''PostDown ='', ''ListenPort = '' @ port, ''PrivateKey = '' @ k]
     @ split_on CHR 0x0A (join newline ([] # concat (map peer_lines ps)))"
    by (simp add: l)
  then show ?thesis by blast
qed

text \<open>
  C7 (amended): for an address, a listen port and a private key without line breaks and any
  peer list, reading the rendered text back gives the address, the port and the key.
\<close>

theorem C7_roundtrip_without_line_breaks:
  assumes "CHR 0x0A \<notin> set addr" "CHR 0x0A \<notin> set port" "CHR 0x0A \<notin> set k"
  shows "parse_interface (create_config_text addr port k ps) = Some (addr, port, k)"
proof -
  from interface_lines [OF assms] obtain rest where
    "split_on CHR 0x0A (create_config_text addr port k ps) =
     [''[Interface]'', ''Address = '' @ addr, ''SaveConfig = true'', ''PreUp ='', ''PostUp ='',
      ''PreDown ='', ''PostDown ='', ''ListenPort = '' @ port, ''PrivateKey = '' @ k] @ rest" by blast
  then show ?thesis
    by (simp add: parse_interface_def lookup_key_def startswith_def)
qed

theorem C7_roundtrip_witness:
  "CHR 0x0A \<notin> set ''10.0.0.1/24'' \<and> CHR 0x0A \<notin> set ''51820'' \<and> CHR 0x0A \<notin> set ''KEY''
   \<and> parse_interface (create_config_text ''10.0.0.1/24'' ''51820'' ''KEY''
         [\<lparr>name = ''laptop'', public_key = ''PUB'', private_key = ''PRIV'',
           allowed_ips = ''10.0.0.2/32'', endpoint = [], keepalive = ''25''\<rparr>])
       = Some (''10.0.0.1/24'', ''51820'', ''KEY'')"
proof -
  have h: "CHR 0x0A \<notin> set ''10.0.0.1/24''" "CHR 0x0A \<notin> set ''51820''" "CHR 0x0A \<notin> set ''KEY''"
    by simp_all
  from C7_roundtrip_without_line_breaks [OF h] h show ?thesis by simp
qed

text \<open>
  C7 (as stated, refuted): the renderer inserts its arguments as they are, so two different
  pairs of address and port render to the same text, and no reader can recover both.
\<close>

theorem C7_renderer_not_injective:
  "create_config_text ''10.0.0.1/24''
       (''51820'' @ newline @ ''SaveConfig = true'' @ newline @ ''PreUp ='' @ newline @ ''PostUp =''
          @ newline @ ''PreDown ='' @ newline @ ''PostDown ='' @ newline @ ''ListenPort = 51821'')
       ''KEY'' []
   = create_config_text
       (''10.0.0.1/24'' @ newline @ ''SaveConfig = true'' @ newline @ ''PreUp ='' @ newline @ ''PostUp =''
          @ newline @ ''PreDown ='' @ newline @ ''PostDown ='' @ newline @ ''ListenPort = 51820'')
       ''51821'' ''KEY'' []
   \<and> ''10.0.0.1/24'' \<noteq> ''10.0.0.1/24'' @ newline @ ''SaveConfig = true'' @ newline @ ''PreUp ='' @ newline
          @ ''PostUp ='' @ newline @ ''PreDown ='' @ newline @ ''PostDown ='' @ newline @ ''ListenPort = 51820''"
  by (simp add: create_config_text_def newline_def)

section \<open>C4: bulk deletion and names that start with an underscore\<close>

lemma delete_one_keeps_underscore:
  assumes "startswith f ''_''" "map_of (files (fst s)) f = Some v"
  shows "map_of (files (fst (delete_one E allowed_names s g))) f = Some v"
proof (cases s)
  case (Pair w count)
  show ?thesis
  proof (cases "startswith g ''_''")
    case True
    then show ?thesis using assms(2) Pair by (simp add: delete_one_def say_def)
  next
    case False
    then have "g \<noteq> f" using assms(1) by auto
    then show ?thesis using assms(2) Pair False
      by (simp add: delete_one_def say_def emit_def delete_conv split: option.splits)
  qed
qed

lemma delete_sweep_keeps_underscore:
  assumes "startswith f ''_''" "map_of (files (fst s)) f = Some v"
  shows "map_of (files (fst (foldl (delete_one E allowed_names) s gs))) f = Some v"
  using assms(2)
proof (induction gs arbitrary: s)
  case Nil
  then show ?case by simp
next
  case (Cons g gs)
  show ?case using Cons.IH [OF delete_one_keeps_underscore [OF assms(1) Cons.prems]] by simp
qed

lemma delete_existing_configs_keeps_underscore:
  assumes "startswith f ''_''" "map_of (files w) f = Some v"
  shows "map_of (files (delete_existing_configs E allowed_names w)) f = Some v"
proof -
  have "map_of (files (fst (say DeletingExisting w, 0::nat))) f = Some v"
    using assms(2) by (simp add: say_def)
  from delete_sweep_keeps_underscore [OF assms(1) this]
  have "map_of (files (fst (foldl (delete_one E allowed_names) (say DeletingExisting w, 0)
          (filter (\<lambda>f. endswith f ''.conf'') (map fst (files w)))))) f = Some v" .
  then show ?thesis by (auto simp: delete_existing_configs_def say_def split: prod.splits)
qed

text \<open>
  C4: the sweep of \<open>--delete-existing\<close> skips every file whose name starts with an
  underscore, the per-name loop of \<open>--delete-only\<close> has no such test. With prefix \<open>_a\<close> and
  range 1--1 the scope name is \<open>_a1\<close>; in a directory that holds \<open>_a1.conf\<close> the
  delete-only branch unlinks that file, while the sweep, allowed the same name, leaves it.
\<close>

theorem C4_delete_only_removes_underscore:
  "digits_of ''1'' ''1'' = 1
   \<and> scope_names ''_a'' 1 1 1 = [''_a1'']
   \<and> startswith ''_a1.conf'' ''_''
   \<and> fst (delete_only_branch env0 (args0\<lparr>prefix := Some ''_a'', end_arg := Some 1, delete_only := True\<rparr>)
            ''_a'' 1 1 1 (world0\<lparr>files := [(''_a1.conf'', ''kept by hand'')]\<rparr>)) = Inr ()
   \<and> files (snd (delete_only_branch env0 (args0\<lparr>prefix := Some ''_a'', end_arg := Some 1, delete_only := True\<rparr>)
                   ''_a'' 1 1 1 (world0\<lparr>files := [(''_a1.conf'', ''kept by hand'')]\<rparr>))) = []
   \<and> Unlink ''_a1.conf'' \<in> set (trace (snd (delete_only_branch env0
          (args0\<lparr>prefix := Some ''_a'', end_arg := Some 1, delete_only := True\<rparr>)
          ''_a'' 1 1 1 (world0\<lparr>files := [(''_a1.conf'', ''kept by hand'')]\<rparr>))))
   \<and> files (delete_existing_configs env0 (Some (scope_names ''_a'' 1 1 1))
              (world0\<lparr>files := [(''_a1.conf'', ''kept by hand'')]\<rparr>)) = [(''_a1.conf'', ''kept by hand'')]"
  by code_simp
section \<open>The four outcomes of one round of the creation loop\<close>

lemma say_fields:
  "files (say m w) = files w" "db (say m w) = db w" "trace (say m w) = trace w"
  "tick (say m w) = tick w" "out (say m w) = out w @ [m]"
  by (simp_all add: say_def)

lemma path_exists_say: "path_exists (say m w) f = path_exists w f"
  by (simp add: path_exists_def say_def)

lemma create_one_cases:
  assumes "nm = pfx @ format_number (int i) d"
      and "w0 = say (EntityHeader nm) w"
      and "c0 = c\<lparr>total := total c + 1\<rparr>"
  shows "(path_exists w (conf_path nm) \<and> \<not> delete_existing A
          \<and> create_one E A ps pfx d (w, c) i = (say Exists w0, c0\<lparr>skipped := skipped c + 1\<rparr>))
       \<or> (\<not> (path_exists w (conf_path nm) \<and> \<not> delete_existing A)
          \<and> (\<exists>w1. generate_keypair E w0 = (None, w1)
                \<and> create_one E A ps pfx d (w, c) i
                    = (say KeygenError w1, c0\<lparr>errors := errors c + 1\<rparr>)))
       \<or> (\<not> (path_exists w (conf_path nm) \<and> \<not> delete_existing A)
          \<and> (\<exists>priv pub w1 w2. generate_keypair E w0 = (Some (priv, pub), w1)
                \<and> gen_peers E ps (say (KeysShown (take 15 priv) (take 15 pub)) w1) = (None, w2)
                \<and> create_one E A ps pfx d (w, c) i
                    = (say PeerKeygenError w2, c0\<lparr>errors := errors c + 1\<rparr>)))
       \<or> (\<not> (path_exists w (conf_path nm) \<and> \<not> delete_existing A)
          \<and> (\<exists>priv pub w1 peers w2. generate_keypair E w0 = (Some (priv, pub), w1)
                \<and> gen_peers E ps (say (KeysShown (take 15 priv) (take 15 pub)) w1) = (Some peers, w2)
                \<and> create_one E A ps pfx d (w, c) i
                    = (if dry_run A then say (WouldCreate (conf_path nm)) w2
                       else say (ConfigCreated (conf_path nm))
                              (w2\<lparr>files := AList.update (conf_path nm)
                                             (create_config_text (address A) (listen_port A) priv peers)
                                             (files w2),
                                   trace := trace w2
                                     @ [WriteText (conf_path nm)
                                          (create_config_text (address A) (listen_port A) priv peers),
                                        Chmod (conf_path nm) 384]\<rparr>),
                       c0\<lparr>summary := summary c @ [(nm, pub, peers)], created := created c + 1\<rparr>)))"
proof (cases "path_exists w (conf_path nm) \<and> \<not> delete_existing A")
  case True
  then show ?thesis using assms by (simp add: create_one_def Let_def path_exists_say)
next
  case False
  note ex = this
  obtain k w1 where g: "generate_keypair E w0 = (k, w1)" by force
  show ?thesis
  proof (cases k)
    case None
    then show ?thesis using ex g assms by (auto simp: create_one_def Let_def path_exists_say)
  next
    case (Some kp)
    obtain priv pub where kp: "kp = (priv, pub)" by force
    obtain r w2 where p: "gen_peers E ps (say (KeysShown (take 15 priv) (take 15 pub)) w1) = (r, w2)"
      by force
    show ?thesis using ex g Some kp p assms
      by (cases r) (auto simp: create_one_def Let_def path_exists_say)
  qed
qed

lemma creation_loop_Cons:
  "creation_loop E A ps pfx d (i # idxs) s
     = creation_loop E A ps pfx d idxs (create_one E A ps pfx d s i)"
  by (simp add: creation_loop_def)






lemma scope_names_paths:
  "(\<forall>n \<in> set (scope_names pfx s e d). P n)
     \<longleftrightarrow> (\<forall>i \<in> set [s..<Suc e]. P (pfx @ format_number (int i) d))"
  by (simp add: scope_names_def del: upt_Suc)

lemma scope_names_lines:
  "concat (map (\<lambda>i. [EntityHeader (pfx @ format_number (int i) d), Exists]) [s..<Suc e])
     = concat (map (\<lambda>n. [EntityHeader n, Exists]) (scope_names pfx s e d))"
  by (simp add: scope_names_def comp_def del: upt_Suc)

section \<open>What a dry run leaves alone\<close>

lemma untouched_iff:
  "untouched w w' \<longleftrightarrow>
     files w' = files w \<and> db w' = db w
     \<and> (\<exists>new. trace w' = trace w @ new \<and> list_all read_only_effect new)"
proof
  assume u: "untouched w w'"
  have "take (length (trace w)) (trace w') = trace w"
    using u by (simp add: untouched_def)
  then have "trace w' = trace w @ drop (length (trace w)) (trace w')"
    by (metis append_take_drop_id)
  then show "files w' = files w \<and> db w' = db w
     \<and> (\<exists>new. trace w' = trace w @ new \<and> list_all read_only_effect new)"
    using u unfolding untouched_def by blast
next
  assume "files w' = files w \<and> db w' = db w
     \<and> (\<exists>new. trace w' = trace w @ new \<and> list_all read_only_effect new)"
  then show "untouched w w'" by (auto simp: untouched_def)
qed

lemma untouched_refl: "untouched w w"
  by (simp add: untouched_def)

lemma untouched_trans:
  assumes "untouched a b" "untouched b c"
  shows "untouched a c"
proof -
  obtain x where x: "files b = files a" "db b = db a" "trace b = trace a @ x"
      "list_all read_only_effect x"
    using assms(1) unfolding untouched_iff by blast
  obtain y where y: "files c = files b" "db c = db b" "trace c = trace b @ y"
      "list_all read_only_effect y"
    using assms(2) unfolding untouched_iff by blast
  have "trace c = trace a @ (x @ y)" "list_all read_only_effect (x @ y)"
    using x y by simp_all
  then show ?thesis unfolding untouched_iff using x y by metis
qed

lemma untouched_say: "untouched w (say m w)"
  by (simp add: untouched_def say_def)


lemma untouched_say_then: "untouched (say m w) w' \<Longrightarrow> untouched w w'"
  using untouched_trans untouched_say by blast

lemma untouched_run_cmd:
  "read_only_effect (Run cmd) \<Longrightarrow> untouched w (snd (run_cmd E cmd inp w))"
  by (simp add: untouched_def run_cmd_def)

lemma untouched_generate_keypair: "untouched w (snd (generate_keypair E w))"
proof -
  obtain r w1 where a: "run_cmd E [''wg'', ''genkey''] [] w = (r, w1)" by (meson surj_pair)
  have u1: "untouched w w1"
    using untouched_run_cmd [of "[''wg'', ''genkey'']" w E "[]"] a by simp
  obtain r2 w2 where b: "run_cmd E [''wg'', ''pubkey''] (strip (snd r) @ newline) w1 = (r2, w2)"
    by (meson surj_pair)
  have u2: "untouched w1 w2"
    using untouched_run_cmd [of "[''wg'', ''pubkey'']" w1 E "strip (snd r) @ newline"] b by simp
  have "snd (generate_keypair E w) = w1 \<or> snd (generate_keypair E w) = w2"
    using a b by (auto simp: generate_keypair_def Let_def split: prod.splits)
  then show ?thesis using u1 untouched_trans [OF u1 u2] by auto
qed

lemma untouched_gen_peers: "untouched w (snd (gen_peers E ts w))"
proof (induction ts arbitrary: w)
  case Nil
  then show ?case by (simp add: untouched_refl)
next
  case (Cons t ts)
  obtain k w1 where g: "generate_keypair E w = (k, w1)" by force
  have u1: "untouched w w1" using untouched_generate_keypair [of w E] g by simp
  show ?case
  proof (cases k)
    case None
    then show ?thesis using g u1 by simp
  next
    case (Some kp)
    obtain priv pub where kp: "kp = (priv, pub)" by force
    obtain r w2 where p: "gen_peers E ts w1 = (r, w2)" by force
    have u2: "untouched w1 w2" using Cons.IH [of w1] p by simp
    have "snd (gen_peers E (t # ts) w) = w2"
      using g Some kp p by (simp split: option.splits)
    then show ?thesis using untouched_trans [OF u1 u2] by simp
  qed
qed












section \<open>C10: what a dry run counts as created\<close>







section \<open>C6: a dry run changes nothing\<close>















section \<open>C3: running the creation loop a second time\<close>

lemma path_exists_files: "files w' = files w \<Longrightarrow> path_exists w' f = path_exists w f"
  by (simp add: path_exists_def)

lemma files_generate_keypair: "files (snd (generate_keypair E w)) = files w"
  by (simp add: generate_keypair_def run_cmd_def Let_def split: prod.splits)

lemma files_gen_peers: "files (snd (gen_peers E ts w)) = files w"
  using untouched_gen_peers [of w E ts] by (simp add: untouched_def)

lemma create_one_errors_mono: "errors (snd s) \<le> errors (snd (create_one E A ps pfx d s i))"
  by (cases s) (auto simp: create_one_def Let_def split: prod.splits option.splits)

lemma files_generate_keypair_eq: "generate_keypair E w = (k, w1) \<Longrightarrow> files w1 = files w"
  using files_generate_keypair [of E w] by simp

lemma files_gen_peers_eq: "gen_peers E ts w = (r, w2) \<Longrightarrow> files w2 = files w"
  using files_gen_peers [of E ts w] by simp

lemma create_one_keeps_files:
  assumes "path_exists (fst s) f"
  shows "path_exists (fst (create_one E A ps pfx d s i)) f"
proof (cases s)
  case (Pair w c)
  show ?thesis
    using create_one_cases [OF refl refl refl, of w pfx i d A E ps c] assms Pair
    by (auto simp: path_exists_def say_def update_conv
          dest!: files_generate_keypair_eq files_gen_peers_eq)
qed

lemma create_one_persists:
  assumes "\<not> dry_run A"
      and "errors (snd (create_one E A ps pfx d s i)) = errors (snd s)"
  shows "path_exists (fst (create_one E A ps pfx d s i)) (conf_path (pfx @ format_number (int i) d))"
proof (cases s)
  case (Pair w c)
  show ?thesis
    using create_one_cases [OF refl refl refl, of w pfx i d A E ps c] assms Pair
    by (auto simp: path_exists_def say_def update_conv)
qed

lemma creation_loop_errors_mono:
  "errors (snd s) \<le> errors (snd (creation_loop E A ps pfx d idxs s))"
proof (induction idxs arbitrary: s)
  case Nil
  then show ?case by (simp add: creation_loop_def)
next
  case (Cons i idxs)
  show ?case
    using create_one_errors_mono [of s E A ps pfx d i]
      Cons.IH [of "create_one E A ps pfx d s i"]
    by (simp add: creation_loop_Cons)
qed

lemma creation_loop_keeps_files:
  "path_exists (fst s) f \<Longrightarrow> path_exists (fst (creation_loop E A ps pfx d idxs s)) f"
proof (induction idxs arbitrary: s)
  case Nil
  then show ?case by (simp add: creation_loop_def)
next
  case (Cons i idxs)
  show ?case
    using Cons.IH [OF create_one_keeps_files [OF Cons.prems, of E A ps pfx d i]]
    by (simp add: creation_loop_Cons)
qed

lemma creation_loop_persists:
  assumes "\<not> dry_run A"
  shows "errors (snd (creation_loop E A ps pfx d idxs s)) = errors (snd s)
         \<Longrightarrow> i \<in> set idxs
         \<Longrightarrow> path_exists (fst (creation_loop E A ps pfx d idxs s))
               (conf_path (pfx @ format_number (int i) d))"
proof (induction idxs arbitrary: s)
  case Nil
  then show ?case by simp
next
  case (Cons j idxs)
  let ?s = "create_one E A ps pfx d s j"
  have m1: "errors (snd s) \<le> errors (snd ?s)" by (rule create_one_errors_mono)
  have m2: "errors (snd ?s) \<le> errors (snd (creation_loop E A ps pfx d idxs ?s))"
    by (rule creation_loop_errors_mono)
  have e: "errors (snd (creation_loop E A ps pfx d idxs ?s)) = errors (snd s)"
    using Cons.prems(1) by (simp add: creation_loop_Cons)
  have e1: "errors (snd ?s) = errors (snd s)" using m1 m2 e by simp
  have e2: "errors (snd (creation_loop E A ps pfx d idxs ?s)) = errors (snd ?s)"
    using e e1 by simp
  show ?case
  proof (cases "i = j")
    case True
    have "path_exists (fst ?s) (conf_path (pfx @ format_number (int j) d))"
      by (rule create_one_persists [OF assms e1])
    from creation_loop_keeps_files [OF this] show ?thesis
      using True by (simp add: creation_loop_Cons)
  next
    case False
    then have "i \<in> set idxs" using Cons.prems(2) by simp
    from Cons.IH [OF e2 this] show ?thesis by (simp add: creation_loop_Cons)
  qed
qed

lemma creation_loop_all_exist:
  assumes "\<not> delete_existing A"
  shows "\<forall>i \<in> set idxs. path_exists w (conf_path (pfx @ format_number (int i) d))
         \<Longrightarrow> creation_loop E A ps pfx d idxs (w, c)
             = (w\<lparr>out := out w @ concat (map (\<lambda>i. [EntityHeader (pfx @ format_number (int i) d), Exists]) idxs)\<rparr>,
                c\<lparr>total := total c + length idxs, skipped := skipped c + length idxs\<rparr>)"
proof (induction idxs arbitrary: w c)
  case Nil
  then show ?case by (simp add: creation_loop_def)
next
  case (Cons j idxs)
  let ?w = "say Exists (say (EntityHeader (pfx @ format_number (int j) d)) w)"
  let ?c = "c\<lparr>total := total c + 1, skipped := skipped c + 1\<rparr>"
  have s: "create_one E A ps pfx d (w, c) j = (?w, ?c)"
    using Cons.prems assms by (simp add: create_one_def Let_def path_exists_def say_def)
  have "\<forall>i \<in> set idxs. path_exists ?w (conf_path (pfx @ format_number (int i) d))"
    using Cons.prems by (simp add: path_exists_def say_def)
  from Cons.IH [OF this, of ?c] show ?case
    by (simp add: creation_loop_Cons s say_def)
qed

lemma files_ensure_service_active: "files (snd (ensure_service_active E nm t w)) = files w"
proof (induction t arbitrary: w)
  case 0
  then show ?case by simp
next
  case (Suc t)
  show ?case using Suc.IH [of "snd (run_cmd E [''systemctl'', ''is-active'', ''--quiet'', nm] [] w)"]
    by (simp add: run_cmd_def split: prod.splits)
qed

lemma files_restart_service: "files (snd (restart_service E nm a w)) = files w"
  by (simp add: restart_service_def run_cmd_def split: prod.splits)

lemma files_purge_wgdashboard_tables: "files (snd (purge_wgdashboard_tables p w)) = files w"
  by (simp add: purge_wgdashboard_tables_def clear_tables_def say_def Let_def split: option.splits)

lemma files_run_pre_creation_cleanup:
  "files (snd (run_pre_creation_cleanup E svc w)) = files w"
proof -
  obtain r1 w1 where a: "restart_service E svc ''stop'' (say CleanupStart w) = (r1, w1)" by force
  have f1: "files w1 = files w"
    using files_restart_service [of E svc "''stop''" "say CleanupStart w"] a by (simp add: say_fields)
  obtain cl w2 where b: "purge_wgdashboard_tables ''APW%'' w1 = (cl, w2)" by force
  have f2: "files w2 = files w"
    using files_purge_wgdashboard_tables [of "''APW%''" w1] b f1 by simp
  define w3 where "w3 = say (if cl \<noteq> [] then TablesEmptied else NoTables) w2"
  have f3: "files w3 = files w" using f2 by (simp add: w3_def say_fields)
  obtain r4 w4 where c: "restart_service E svc ''start'' w3 = (r4, w4)" by force
  have f4: "files w4 = files w" using files_restart_service [of E svc "''start''" w3] c f3 by simp
  obtain r5 w5 where e: "ensure_service_active E svc 10 w4 = (r5, w5)" by force
  have f5: "files w5 = files w" using files_ensure_service_active [of E svc 10 w4] e f4 by simp
  show ?thesis using a b c e f3 f5
    by (simp add: run_pre_creation_cleanup_def Let_def w3_def [symmetric] say_fields)
qed

text \<open>
  C3: not in dry-run mode and without \<open>--delete-existing\<close>, let a first pass of the creation
  loop over the range end with no key-generation error, and let a second pass start in any
  state with the same files (whatever the surroundings answer this time). Then every scope
  name has its file, and the second pass creates nothing, skips every name of the range
  (its header and the line saying that it exists are printed, and no command is run), adds
  nothing to the summary list and leaves the files as they are. In the second run as a
  whole the cleanup before the loop leaves the files alone, and unless it ends the run the
  report is the one of these counters.
\<close>

theorem C3_second_run_skips_all:
  assumes "\<not> dry_run A" and "\<not> delete_existing A"
      and "creation_loop E1 A ps pfx d [s..<Suc e] (w, counters0) = (w1, c1)"
      and "errors c1 = 0"
      and "files w2 = files w1"
  shows "(\<forall>n \<in> set (scope_names pfx s e d). path_exists w2 (conf_path n))
       \<and> creation_loop E2 A ps2 pfx d [s..<Suc e] (w2, counters0)
           = (w2\<lparr>out := out w2 @ concat (map (\<lambda>n. [EntityHeader n, Exists]) (scope_names pfx s e d))\<rparr>,
              \<lparr>total = Suc e - s, created = 0, skipped = Suc e - s, errors = 0, summary = []\<rparr>)
       \<and> files (snd (create_branch E2 A ps2 key pfx s e d w2)) = files w2
       \<and> (\<forall>x w3. run_pre_creation_cleanup E2 (dashboard_service A) w2 = (Inl x, w3)
             \<longrightarrow> create_branch E2 A ps2 key pfx s e d w2 = (Inl x, w3))
       \<and> (\<forall>w3. run_pre_creation_cleanup E2 (dashboard_service A) w2 = (Inr (), w3)
             \<longrightarrow> create_branch E2 A ps2 key pfx s e d w2
                 = (Inr (),
                    report A \<lparr>total = Suc e - s, created = 0, skipped = Suc e - s, errors = 0,
                              summary = []\<rparr>
                      (w3\<lparr>out := out w3 @ concat (map (\<lambda>n. [EntityHeader n, Exists])
                                                    (scope_names pfx s e d))\<rparr>)))"
proof -
  have e0: "errors (snd (creation_loop E1 A ps pfx d [s..<Suc e] (w, counters0)))
              = errors (snd (w, counters0))"
    using assms(3,4) by (simp add: counters0_def)
  have p1: "\<forall>i \<in> set [s..<Suc e]. path_exists w1 (conf_path (pfx @ format_number (int i) d))"
  proof
    fix i assume "i \<in> set [s..<Suc e]"
    from creation_loop_persists [OF assms(1) e0 this]
    show "path_exists w1 (conf_path (pfx @ format_number (int i) d))"
      by (simp add: assms(3) del: upt_Suc)
  qed
  have p2: "\<forall>i \<in> set [s..<Suc e]. path_exists w' (conf_path (pfx @ format_number (int i) d))"
    if "files w' = files w2" for w'
    using p1 path_exists_files [of w' w1] that assms(5) by (simp del: upt_Suc)
  have a: "\<forall>n \<in> set (scope_names pfx s e d). path_exists w2 (conf_path n)"
    unfolding scope_names_paths using p2 [of w2] by (simp del: upt_Suc)
  have loop: "creation_loop E2 A ps2 pfx d [s..<Suc e] (w', counters0)
           = (w'\<lparr>out := out w' @ concat (map (\<lambda>n. [EntityHeader n, Exists]) (scope_names pfx s e d))\<rparr>,
              \<lparr>total = Suc e - s, created = 0, skipped = Suc e - s, errors = 0, summary = []\<rparr>)"
    if "files w' = files w2" for w'
    using creation_loop_all_exist [OF assms(2) p2 [OF that], of E2 ps2 counters0]
    by (simp add: scope_names_lines counters0_def del: upt_Suc)
  have b: "creation_loop E2 A ps2 pfx d [s..<Suc e] (w2, counters0)
           = (w2\<lparr>out := out w2 @ concat (map (\<lambda>n. [EntityHeader n, Exists]) (scope_names pfx s e d))\<rparr>,
              \<lparr>total = Suc e - s, created = 0, skipped = Suc e - s, errors = 0, summary = []\<rparr>)"
    by (rule loop) simp
  obtain r w3 where c: "run_pre_creation_cleanup E2 (dashboard_service A) w2 = (r, w3)" by force
  have f3: "files w3 = files w2"
    using files_run_pre_creation_cleanup [of E2 "dashboard_service A" w2] c by simp
  have br: "create_branch E2 A ps2 key pfx s e d w2
       = (case r of Inl x \<Rightarrow> (Inl x, w3)
          | Inr u \<Rightarrow> (Inr (),
                    report A \<lparr>total = Suc e - s, created = 0, skipped = Suc e - s, errors = 0,
                              summary = []\<rparr>
                      (w3\<lparr>out := out w3 @ concat (map (\<lambda>n. [EntityHeader n, Exists])
                                                    (scope_names pfx s e d))\<rparr>)))"
    using assms(1) c loop [OF f3]
    by (simp add: create_branch_def registration_phase_def split: sum.splits del: upt_Suc)
  have f: "files (snd (create_branch E2 A ps2 key pfx s e d w2)) = files w2"
    using f3 by (simp add: br report_def Let_def say_fields split: sum.splits)
  have x1: "\<forall>x w3. run_pre_creation_cleanup E2 (dashboard_service A) w2 = (Inl x, w3)
             \<longrightarrow> create_branch E2 A ps2 key pfx s e d w2 = (Inl x, w3)"
    using c br by auto
  have x2: "\<forall>w3. run_pre_creation_cleanup E2 (dashboard_service A) w2 = (Inr (), w3)
             \<longrightarrow> create_branch E2 A ps2 key pfx s e d w2
                 = (Inr (),
                    report A \<lparr>total = Suc e - s, created = 0, skipped = Suc e - s, errors = 0,
                              summary = []\<rparr>
                      (w3\<lparr>out := out w3 @ concat (map (\<lambda>n. [EntityHeader n, Exists])
                                                    (scope_names pfx s e d))\<rparr>))"
    using c br by auto
  show ?thesis using a b f x1 x2 by blast
qed

theorem C3_second_run_witness:
  "\<not> dry_run args0 \<and> \<not> delete_existing args0
   \<and> errors (snd (creation_loop env0 args0 templates0 ''APW'' 1 [1..<Suc 1] (world0, counters0))) = 0
   \<and> created (snd (creation_loop env0 args0 templates0 ''APW'' 1 [1..<Suc 1] (world0, counters0))) = 1
   \<and> created (snd (creation_loop env0 args0 templates0 ''APW'' 1 [1..<Suc 1]
        (fst (creation_loop env0 args0 templates0 ''APW'' 1 [1..<Suc 1] (world0, counters0)),
         counters0))) = 0
   \<and> skipped (snd (creation_loop env0 args0 templates0 ''APW'' 1 [1..<Suc 1]
        (fst (creation_loop env0 args0 templates0 ''APW'' 1 [1..<Suc 1] (world0, counters0)),
         counters0))) = 1"
proof -
  have a: "\<not> dry_run args0" "\<not> delete_existing args0" by (simp_all add: args0_def)
  have l: "creation_loop env0 args0 templates0 ''APW'' 1 [1..<Suc 1] (world0, counters0)
             = (fst (creation_loop env0 args0 templates0 ''APW'' 1 [1..<Suc 1] (world0, counters0)),
                snd (creation_loop env0 args0 templates0 ''APW'' 1 [1..<Suc 1] (world0, counters0)))"
    by simp
  have e: "errors (snd (creation_loop env0 args0 templates0 ''APW'' 1 [1..<Suc 1] (world0, counters0))) = 0"
    by code_simp
  have c: "created (snd (creation_loop env0 args0 templates0 ''APW'' 1 [1..<Suc 1] (world0, counters0))) = 1"
    by code_simp
  from C3_second_run_skips_all [OF a l e refl, of env0 templates0]
  have "creation_loop env0 args0 templates0 ''APW'' 1 [1..<Suc 1]
          (fst (creation_loop env0 args0 templates0 ''APW'' 1 [1..<Suc 1] (world0, counters0)),
           counters0)
        = (fst (creation_loop env0 args0 templates0 ''APW'' 1 [1..<Suc 1] (world0, counters0))
             \<lparr>out := out (fst (creation_loop env0 args0 templates0 ''APW'' 1 [1..<Suc 1]
                                  (world0, counters0)))
                     @ concat (map (\<lambda>n. [EntityHeader n, Exists]) (scope_names ''APW'' 1 1 1))\<rparr>,
           \<lparr>total = Suc 1 - 1, created = 0, skipped = Suc 1 - 1, errors = 0, summary = []\<rparr>)"
    by blast
  then show ?thesis using a e c by simp
qed

section \<open>C8: one fresh key pair per peer and entity\<close>























section \<open>C1: what ends a creation run early\<close>

lemma create_one_total: "total (snd (create_one E A ps pfx d s i)) = total (snd s) + 1"
  by (cases s) (auto simp: create_one_def Let_def split: prod.splits option.splits)

lemma creation_loop_total:
  "total (snd (creation_loop E A ps pfx d idxs s)) = total (snd s) + length idxs"
proof (induction idxs arbitrary: s)
  case Nil
  then show ?case by (simp add: creation_loop_def)
next
  case (Cons i idxs)
  show ?case
    using Cons.IH [of "create_one E A ps pfx d s i"] create_one_total [of E A ps pfx d s i]
    by (simp add: creation_loop_Cons)
qed

lemma update_wgdashboard_peer_exit:
  "update_wgdashboard_peer E u key cn pub priv pname pdns pa ea mtu ka se w = (Inl e, w')
     \<Longrightarrow> (\<exists>x. e = Uncaught x)"
  by (auto simp: update_wgdashboard_peer_def Let_def
        split: http_result.splits body.splits option.splits json.splits if_splits)

lemma push_peers_exit:
  "push_peers E A key cn peers a b w = (Inl e, w') \<Longrightarrow> (\<exists>x. e = Uncaught x)"
proof (induction peers arbitrary: a b w)
  case Nil
  then show ?case by simp
next
  case (Cons p peers)
  let ?pn = "if name p \<noteq> [] then name p else peer_name A"
  obtain r w1 where u: "update_wgdashboard_peer E (dashboard_url A) key cn (public_key p)
                (private_key p) ?pn (peer_dns A) (allowed_ips p) (endpoint_allowed_ips A)
                (peer_mtu A) (peer_keepalive A) (server_endpoint A) w = (r, w1)"
    by force
  show ?case
  proof (cases r)
    case (Inl x)
    then show ?thesis using Cons.prems u update_wgdashboard_peer_exit [of E _ key cn] 
      by (auto simp: Let_def)
  next
    case (Inr ok)
    then show ?thesis using Cons.prems u Cons.IH
      by (cases ok) (auto simp: Let_def)
  qed
qed

lemma register_entities_exit:
  "register_entities E A key sm a b w = (Inl e, w') \<Longrightarrow> (\<exists>x. e = Uncaught x)"
proof (induction sm arbitrary: a b w)
  case Nil
  then show ?case by simp
next
  case (Cons x sm)
  obtain cn ipub peers where x: "x = (cn, ipub, peers)" by (cases x) auto
  show ?case
  proof (cases "peers = []")
    case True
    then show ?thesis using Cons.prems x Cons.IH by simp
  next
    case False
    obtain ok w1 where st: "start_interface E cn (say (EntityLine cn) w) = (ok, w1)" by force
    show ?thesis
    proof (cases ok)
      case False
      then show ?thesis using Cons.prems x \<open>peers \<noteq> []\<close> st Cons.IH by simp
    next
      case True
      obtain r w2 where pp: "push_peers E A key cn peers a b w1 = (r, w2)" by force
      show ?thesis
      proof (cases r)
        case (Inl y)
        then show ?thesis using Cons.prems x \<open>peers \<noteq> []\<close> st True pp push_peers_exit [of E A key cn peers a b w1]
          by simp
      next
        case (Inr sf)
        obtain s f where "sf = (s, f)" by force
        then show ?thesis using Cons.prems x \<open>peers \<noteq> []\<close> st True pp Inr Cons.IH by simp
      qed
    qed
  qed
qed

lemma restart_prompt_exit:
  "restart_prompt E A w = (Inl e, w') \<Longrightarrow>
     e = SysExit 1 \<and> last (out w') = ServiceNotRunningAfterRestart (dashboard_service A)"
  by (auto simp: restart_prompt_def Let_def say_fields split: prod.splits if_splits)

lemma run_pre_creation_cleanup_exit:
  "run_pre_creation_cleanup E svc w = (Inl e, w') \<Longrightarrow>
     e = SysExit 1 \<and> last (out w') = ServiceNotRunningAfterStart svc"
  by (auto simp: run_pre_creation_cleanup_def Let_def say_fields split: prod.splits if_splits)

lemma registration_phase_exit:
  assumes "registration_phase E A key c w = (Inl e, w')"
  shows "(e = SysExit 1 \<and> last (out w') = ServiceNotRunningAfterRestart (dashboard_service A))
         \<or> (\<exists>x. e = Uncaught x)"
proof -
  obtain r w1 where rp: "restart_prompt E A (say RestartHint (say UpdatingPeers w)) = (r, w1)"
    by force
  show ?thesis
  proof (cases r)
    case (Inl x)
    then show ?thesis using assms rp restart_prompt_exit [of E A _ x w1]
      by (auto simp: registration_phase_def split: if_splits)
  next
    case (Inr u)
    obtain r2 w2 where re: "register_entities E A key (summary c) 0 0 w1 = (r2, w2)" by force
    show ?thesis
    proof (cases r2)
      case (Inl y)
      then show ?thesis using assms rp Inr re register_entities_exit [of E A key "summary c" 0 0 w1]
        by (auto simp: registration_phase_def split: if_splits)
    next
      case (Inr sf)
      then show ?thesis using assms rp \<open>r = Inr u\<close> re
        by (auto simp: registration_phase_def split: if_splits prod.splits)
    qed
  qed
qed

lemma create_branch_exit:
  assumes "create_branch E A ps key pfx s e' d w = (Inl e, w')"
  shows "(e = SysExit 1
           \<and> (last (out w') = ServiceNotRunningAfterStart (dashboard_service A)
              \<or> last (out w') = ServiceNotRunningAfterRestart (dashboard_service A)))
         \<or> (\<exists>x. e = Uncaught x)"
proof -
  obtain r w1 where cl: "(if \<not> dry_run A then run_pre_creation_cleanup E (dashboard_service A) w
                          else (Inr (), w)) = (r, w1)"
    by force
  show ?thesis
  proof (cases r)
    case (Inl x)
    then have "run_pre_creation_cleanup E (dashboard_service A) w = (Inl x, w1)"
      using cl by (auto split: if_splits)
    from run_pre_creation_cleanup_exit [OF this] show ?thesis
      using assms cl Inl by (simp add: create_branch_def)
  next
    case (Inr u)
    obtain w2 c where lp: "creation_loop E A ps pfx d [s..<Suc e'] (w1, counters0) = (w2, c)"
      by force
    obtain r3 w3 where rg: "registration_phase E A key c w2 = (r3, w3)" by force
    show ?thesis
    proof (cases r3)
      case (Inl y)
      then show ?thesis using assms cl \<open>r = Inr u\<close> lp rg registration_phase_exit [of E A key c w2 y w3]
        by (auto simp: create_branch_def simp del: upt_Suc)
    next
      case (Inr v)
      then show ?thesis using assms cl \<open>r = Inr u\<close> lp rg
        by (simp add: create_branch_def del: upt_Suc)
    qed
  qed
qed

text \<open>
  C1: an answer to one peer's update with HTTP 200 and a body that is valid JSON but not an
  object is none of the errors \<open>update_wgdashboard_peer\<close> catches: the \<open>AttributeError\<close>
  leaves the function and the run. With two entities created and such an answer to the
  first peer of the first entity, the run ends there: both records are written, the first
  entity is taken up for registration, the second never is, and no report is printed.
\<close>

theorem C1_non_object_body_aborts:
  "fst (update_wgdashboard_peer env_list_body ''http://localhost:10086'' ''secret'' ''APW1''
          ''pub'' ''priv'' ''laptop'' ''1.1.1.1'' ''10.0.0.2/32'' ''0.0.0.0/0'' 1420 21
          ''vpn.example.org:51820'' world0) = Inl (Uncaught ''AttributeError'')
   \<and> fst (create_branch env_list_body args0 templates0 ''secret'' ''APW'' 1 2 1 world0)
       = Inl (Uncaught ''AttributeError'')
   \<and> map fst (files (snd (create_branch env_list_body args0 templates0 ''secret'' ''APW'' 1 2 1
                              world0))) = [''APW1.conf'', ''APW2.conf'']
   \<and> EntityLine ''APW1'' \<in> set (out (snd (create_branch env_list_body args0 templates0 ''secret''
                                               ''APW'' 1 2 1 world0)))
   \<and> EntityLine ''APW2'' \<notin> set (out (snd (create_branch env_list_body args0 templates0 ''secret''
                                               ''APW'' 1 2 1 world0)))
   \<and> length (filter (\<lambda>e. case e of Http (UpdatePeerSettings u k c p) \<Rightarrow> True | _ \<Rightarrow> False)
               (trace (snd (create_branch env_list_body args0 templates0 ''secret'' ''APW'' 1 2 1
                              world0)))) = 1
   \<and> last (out (snd (create_branch env_list_body args0 templates0 ''secret'' ''APW'' 1 2 1 world0)))
       = EntityLine ''APW1''"
  by code_simp

end
